theory Spec2Isabelle
  imports Main "HOL-Library.Word" "HOL-Library.Sublist" "HOL-Library.Stream"
begin

section \<open>Data model\<close>

text \<open>
  Python \<open>bytes\<close> are lists of 8-bit words, Python \<open>str\<close> are lists of characters
  (read as the code points below 256), Python integers are \<open>int\<close>.
  A raised exception is a value: its class name and its message (\<open>str(err)\<close>).
\<close>

type_synonym byte = "8 word"
type_synonym bytes = "byte list"

datatype exn = Exn (exn_class: string) (exn_msg: string)

text \<open>engines.py, \<open>class AudioFormat\<close>.\<close>

record AudioFormat =
  rate :: int
  width :: int
  channels :: int

text \<open>
  What an engine's \<open>stream\<close> yields: \<open>('format', AudioFormat)\<close> or
  \<open>('chunk', bytes)\<close>.
\<close>

datatype AudioEvent = Format AudioFormat | Chunk bytes

fun is_Format :: "AudioEvent \<Rightarrow> bool" where
  "is_Format (Format f) = True"
| "is_Format (Chunk d) = False"

fun is_Chunk :: "AudioEvent \<Rightarrow> bool" where
  "is_Chunk (Format f) = False"
| "is_Chunk (Chunk d) = True"

text \<open>
  The command line arguments the code reads with \<open>getattr(cli_args, name, default)\<close>:
  \<open>None\<close> is an absent attribute.
\<close>

record cli_args =
  cli_voice :: "string option"
  cli_streaming :: "bool option"
  cli_sample_rate :: "int option"

definition getattr :: "'a option \<Rightarrow> 'a \<Rightarrow> 'a" where
  "getattr a d = (case a of None \<Rightarrow> d | Some v \<Rightarrow> v)"

text \<open>
  One upstream call, as the adapter sees it: the client constructor may raise
  (\<open>client_error\<close>); otherwise the response delivers \<open>fragments\<close> in order and then
  either ends or raises (\<open>stream_error\<close>). A call that raises while opening the
  response is a response with no fragment and a \<open>stream_error\<close>.
\<close>

record upstream =
  client_error :: "exn option"
  fragments :: "bytes list"
  stream_error :: "exn option"

section \<open>Strings\<close>

text \<open>\<open>str.isspace\<close> on the code points below 256.\<close>

definition isspace :: "char \<Rightarrow> bool" where
  "isspace c = (let n = (of_char c :: nat) in
     (9 \<le> n \<and> n \<le> 13) \<or> (28 \<le> n \<and> n \<le> 32) \<or> n = 133 \<or> n = 160)"

text \<open>\<open>str.strip()\<close>: leading and trailing whitespace removed.\<close>

definition strip :: "string \<Rightarrow> string" where
  "strip s = rev (dropWhile isspace (rev (dropWhile isspace s)))"

text \<open>\<open>str.lower()\<close> on the code points below 256.\<close>

definition lower_char :: "char \<Rightarrow> char" where
  "lower_char c = (let n = (of_char c :: nat) in
     if (65 \<le> n \<and> n \<le> 90) \<or> (192 \<le> n \<and> n \<le> 222 \<and> n \<noteq> 215)
     then char_of (n + 32) else c)"

definition lower :: "string \<Rightarrow> string" where
  "lower s = map lower_char s"

text \<open>\<open>sub in s\<close> is \<^const>\<open>sublist\<close>.\<close>

text \<open>
  \<open>s.split(sep, 1)[1]\<close>: what follows the first occurrence of \<open>sep\<close>;
  \<open>IndexError\<close> when there is none.
\<close>

fun split1_snd :: "string \<Rightarrow> string \<Rightarrow> string option" where
  "split1_snd sep [] = (if sep = [] then Some [] else None)"
| "split1_snd sep (c # cs) =
     (if prefix sep (c # cs) then Some (drop (length sep) (c # cs))
      else split1_snd sep cs)"

text \<open>
  \<open>str.splitlines()\<close> on the code points below 256: the line boundaries are
  \<open>\n\<close>, \<open>\r\<close>, \<open>\r\n\<close>, \<open>\v\<close>, \<open>\f\<close>, \<open>\x1c\<close>, \<open>\x1d\<close>, \<open>\x1e\<close> and
  \<open>\x85\<close>; a final boundary opens no empty last line.
\<close>

definition is_linebreak :: "char \<Rightarrow> bool" where
  "is_linebreak c = (let n = (of_char c :: nat) in
     (10 \<le> n \<and> n \<le> 13) \<or> (28 \<le> n \<and> n \<le> 30) \<or> n = 133)"

fun splitlines_aux :: "string \<Rightarrow> string \<Rightarrow> string list" where
  "splitlines_aux cur [] = (if cur = [] then [] else [rev cur])"
| "splitlines_aux cur (c # cs) =
     (if is_linebreak c
      then rev cur #
        (case cs of
           d # ds \<Rightarrow> if of_char c = (13::nat) \<and> of_char d = (10::nat)
                     then splitlines_aux [] ds else splitlines_aux [] cs
         | [] \<Rightarrow> splitlines_aux [] cs)
      else splitlines_aux (c # cur) cs)"

definition splitlines :: "string \<Rightarrow> string list" where
  "splitlines s = splitlines_aux [] s"

text \<open>\<open>" ".join(lines)\<close>.\<close>

fun join_space :: "string list \<Rightarrow> string" where
  "join_space [] = []"
| "join_space [l] = l"
| "join_space (l # ls) = l @ '' '' @ join_space ls"

section \<open>engines.py\<close>

subsection \<open>GoogleTTSEngine\<close>

text \<open>
  \<open>GoogleTTSEngine.stream\<close>: the client is built first; then the format is announced
  with the configured sample rate (default 22050), 16-bit mono; then every response
  with a non-empty \<open>audio_content\<close> is forwarded as a chunk. The result is the list of
  yielded events and the exception that ends the generator, if any. The text, the voice
  and the language code taken from the voice only shape the request; what comes back
  is the upstream's.
\<close>

definition google_stream ::
  "string \<Rightarrow> string \<Rightarrow> cli_args \<Rightarrow> upstream \<Rightarrow> AudioEvent list \<times> exn option" where
  "google_stream text voice_name cli up =
     (case client_error up of
        Some e \<Rightarrow> ([], Some e)
      | None \<Rightarrow>
          (Format \<lparr>rate = getattr (cli_sample_rate cli) 22050, width = 2, channels = 1\<rparr>
             # map Chunk (filter (\<lambda>b. b \<noteq> []) (fragments up)),
           stream_error up))"

subsection \<open>OpenAITTSEngine\<close>

definition IndexError :: exn where
  "IndexError = Exn ''IndexError'' ''list index out of range''"

text \<open>\<open>OpenAITTSEngine._parse_voice\<close>.\<close>

definition parse_voice :: "string \<Rightarrow> exn + string" where
  "parse_voice voice_name =
     (let n = strip voice_name in
      if sublist ''-openai-'' (lower n)
      then (case split1_snd ''-openai-'' n of
              None \<Rightarrow> Inl IndexError
            | Some v \<Rightarrow> Inr v)
      else Inr n)"

text \<open>\<open>int.from_bytes(bs, "little", signed=False)\<close>.\<close>

fun from_bytes_little :: "bytes \<Rightarrow> int" where
  "from_bytes_little [] = 0"
| "from_bytes_little (b # bs) = uint b + 256 * from_bytes_little bs"

text \<open>Python's slice \<open>buf[i:j]\<close> for \<open>0 \<le> i \<le> j\<close>.\<close>

definition slice :: "nat \<Rightarrow> nat \<Rightarrow> 'a list \<Rightarrow> 'a list" where
  "slice i j xs = take (j - i) (drop i xs)"

definition RIFF :: bytes where
  "RIFF = [0x52, 0x49, 0x46, 0x46]"

definition WAVE :: bytes where
  "WAVE = [0x57, 0x41, 0x56, 0x45]"

text \<open>
  \<open>try_parse_wav_header\<close>, the container header detector: returns
  \<open>(ok, data_offset, sr, ch, width_bytes)\<close>.
\<close>

definition try_parse_wav_header ::
  "bytes \<Rightarrow> bool \<times> nat \<times> int option \<times> int option \<times> int option" where
  "try_parse_wav_header buf =
     (if length buf < 44 then (False, 0, None, None, None)
      else if \<not> (slice 0 4 buf = RIFF \<and> slice 8 12 buf = WAVE)
      then (True, 0, None, None, None)
      else
        (let ch = from_bytes_little (slice 22 24 buf);
             sr = from_bytes_little (slice 24 28 buf);
             bits = from_bytes_little (slice 34 36 buf);
             data_offset = 44
         in (True, data_offset, Some sr, Some ch,
             if bits \<noteq> 0 then Some (bits div 8) else None)))"

text \<open>Python's \<open>if x: v = x\<close> for an optional integer: \<open>None\<close> and 0 keep \<open>v\<close>.\<close>

definition override :: "int option \<Rightarrow> int \<Rightarrow> int" where
  "override x v = (case x of None \<Rightarrow> v | Some y \<Rightarrow> if y \<noteq> 0 then y else v)"

text \<open>
  The loop \<open>for chunk in resp.iter_bytes()\<close> of \<open>OpenAITTSEngine.stream\<close>, with its
  local state \<open>got_header\<close>, \<open>header_buf\<close>, \<open>sample_rate\<close>, \<open>channels\<close>, \<open>width\<close>.
\<close>

fun openai_loop ::
  "bool \<Rightarrow> bytes \<Rightarrow> int \<Rightarrow> int \<Rightarrow> int \<Rightarrow> bytes list \<Rightarrow> AudioEvent list" where
  "openai_loop got_header header_buf sample_rate chans wid [] = []"
| "openai_loop got_header header_buf sample_rate chans wid (chunk # rest) =
     (if chunk = [] then openai_loop got_header header_buf sample_rate chans wid rest
      else if \<not> got_header then
        (let header_buf' = header_buf @ chunk in
         case try_parse_wav_header header_buf' of (ok, data_off, sr, ch, w) \<Rightarrow>
           if \<not> ok then openai_loop False header_buf' sample_rate chans wid rest
           else
             (let sample_rate' = override sr sample_rate;
                  chans' = override ch chans;
                  wid' = override w wid;
                  payload = drop data_off header_buf'
              in Format \<lparr>rate = sample_rate', width = wid', channels = chans'\<rparr>
                 # (if payload \<noteq> [] then [Chunk payload] else [])
                 @ openai_loop True header_buf' sample_rate' chans' wid' rest))
      else Chunk chunk # openai_loop True header_buf sample_rate chans wid rest)"

text \<open>The loop from its initial state: nothing buffered, fallbacks 24000 Hz, mono, 16-bit.\<close>

definition openai_events :: "bytes list \<Rightarrow> AudioEvent list" where
  "openai_events chunks = openai_loop False [] 24000 1 2 chunks"

text \<open>
  \<open>OpenAITTSEngine.stream\<close>: the client is built, the voice token is parsed (the
  token and the model only shape the request), the streaming response is opened and
  its byte fragments go through the loop.
\<close>

definition openai_stream ::
  "string \<Rightarrow> string \<Rightarrow> cli_args \<Rightarrow> upstream \<Rightarrow> AudioEvent list \<times> exn option" where
  "openai_stream text voice_name cli up =
     (case client_error up of
        Some e \<Rightarrow> ([], Some e)
      | None \<Rightarrow>
          (case parse_voice voice_name of
             Inl e \<Rightarrow> ([], Some e)
           | Inr voice \<Rightarrow> (openai_events (fragments up), stream_error up)))"

subsection \<open>EngineRegistry\<close>

datatype engine = GoogleTTSEngine | OpenAITTSEngine

text \<open>
  \<open>EngineRegistry.pick\<close>: \<open>voice_name or ""\<close>, stripped and lowercased, is matched
  against the two infixes; with no match the function falls off its end and returns
  \<open>None\<close>.
\<close>

definition pick :: "string option \<Rightarrow> (string \<times> engine \<times> string) option" where
  "pick voice_name =
     (let v = lower (strip (case voice_name of None \<Rightarrow> [] | Some n \<Rightarrow> n)) in
      if sublist ''-chirp3-hd-'' v then Some (''google'', GoogleTTSEngine, v)
      else if sublist ''-openai-'' v then Some (''openai'', OpenAITTSEngine, v)
      else None)"

fun engine_stream ::
  "engine \<Rightarrow> string \<Rightarrow> string \<Rightarrow> cli_args \<Rightarrow> upstream \<Rightarrow> AudioEvent list \<times> exn option" where
  "engine_stream GoogleTTSEngine = google_stream"
| "engine_stream OpenAITTSEngine = openai_stream"

section \<open>handler.py\<close>

text \<open>
  The events the handler receives. \<open>SynthesizeVoice\<close> carries the optional voice name
  of a request; the voice object itself is optional too. \<open>OtherEvent\<close> is an event of
  any other type.
\<close>

datatype SynthesizeVoice = SynthesizeVoice (name: "string option")

datatype event =
    Describe
  | Synthesize string "SynthesizeVoice option"
  | SynthesizeStart "SynthesizeVoice option"
  | SynthesizeChunk string
  | SynthesizeStop
  | OtherEvent

text \<open>
  The events the handler writes to the client, in the order of the \<open>write_event\<close>
  calls (a write is taken to succeed). \<open>AudioStart\<close> carries rate, width and
  channels; \<open>AudioChunk\<close> the audio and the same three; \<open>Error\<close> the text and the
  code.
\<close>

datatype out_event =
    Info
  | AudioStart int int int
  | AudioChunk bytes int int int
  | AudioStop
  | SynthesizeStopped
  | Error string string

fun is_AudioStart :: "out_event \<Rightarrow> bool" where
  "is_AudioStart (AudioStart r w c) = True"
| "is_AudioStart e = False"

text \<open>
  The sentence boundary detector is the external library \<open>sentence_stream\<close>; the
  handler is given it as a parameter. \<open>add_chunk\<close> is a generator that mutates the
  detector while it is consumed: it is modelled by the sentences it yields, each with
  the detector state at that yield, and the detector state once it is exhausted.
\<close>

record 's segmenter =
  sbd_new :: "'s"
  add_chunk :: "'s \<Rightarrow> string \<Rightarrow> (string \<times> 's) list \<times> 's"
  finish :: "'s \<Rightarrow> string \<times> 's"

text \<open>The handler's fields: \<open>cli_args\<close>, \<open>is_streaming\<close>, \<open>sbd\<close> and \<open>_synthesize\<close>.\<close>

record synthesize_req =
  req_text :: string
  req_voice :: "SynthesizeVoice option"

record 's handler =
  h_cli_args :: cli_args
  is_streaming :: "bool option"
  sbd :: "'s"
  h_synthesize :: "synthesize_req option"

definition default_voice :: string where
  "default_voice = ''en-US-Chirp3-HD-Charon''"

definition TypeError_unpack :: exn where
  "TypeError_unpack = Exn ''TypeError'' ''cannot unpack non-iterable NoneType object''"

definition AssertionError :: exn where
  "AssertionError = Exn ''AssertionError'' []"

subsection \<open>\<open>_synthesize_with_engine\<close>\<close>

text \<open>
  The loop \<open>async for kind, payload in engine.stream(...)\<close>: the arguments are
  \<open>send_start\<close>, the flag \<open>announced\<close> and the events still to come; the result is
  the events written and the final \<open>announced\<close>.
\<close>

fun relay :: "cli_args \<Rightarrow> bool \<Rightarrow> bool \<Rightarrow> AudioEvent list \<Rightarrow> out_event list \<times> bool" where
  "relay cli send_start announced [] = ([], announced)"
| "relay cli send_start announced (Format fmt # evs) =
     (if send_start \<and> \<not> announced
      then (case relay cli send_start True evs of (out, a) \<Rightarrow>
              (AudioStart (rate fmt) (width fmt) (channels fmt) # out, a))
      else relay cli send_start announced evs)"
| "relay cli send_start announced (Chunk data # evs) =
     (case relay cli send_start announced evs of (out, a) \<Rightarrow>
        (AudioChunk data (getattr (cli_sample_rate cli) 22050) 2 1 # out, a))"

text \<open>
  \<open>_synthesize_with_engine\<close>. The last argument is the network: the upstream
  responses that the successive engine calls will meet; a call consumes the first.
  Unpacking the \<open>None\<close> that \<open>pick\<close> returns for an unmatched voice raises
  \<open>TypeError\<close>. An exception of the engine ends the function after the events
  relayed so far.
\<close>

definition synthesize_with_engine ::
  "cli_args \<Rightarrow> string \<Rightarrow> string option \<Rightarrow> bool \<Rightarrow> bool \<Rightarrow> upstream stream
     \<Rightarrow> out_event list \<times> (exn + unit) \<times> upstream stream" where
  "synthesize_with_engine cli text voice_name send_start send_stop net =
     (case pick voice_name of
        None \<Rightarrow> ([], Inl TypeError_unpack, net)
      | Some (provider, eng, norm_voice) \<Rightarrow>
          (case engine_stream eng text norm_voice cli (shd net) of (evs, err) \<Rightarrow>
             (case relay cli send_start False evs of (out, announced) \<Rightarrow>
                (case err of
                   Some e \<Rightarrow> (out, Inl e, stl net)
                 | None \<Rightarrow>
                     (out @ (if send_stop \<and> announced then [AudioStop] else []),
                      Inr (), stl net)))))"

subsection \<open>\<open>handle_event\<close>\<close>

text \<open>The voice of the stream paths: the recorded voice's name, else the configured one.\<close>

definition stream_voice :: "cli_args \<Rightarrow> synthesize_req \<Rightarrow> string option" where
  "stream_voice cli req =
     (case req_voice req of
        Some v \<Rightarrow> name v
      | None \<Rightarrow> Some (getattr (cli_voice cli) default_voice))"

text \<open>
  The loop \<open>for sentence in self.sbd.add_chunk(stream_chunk.text)\<close>: the sentences
  still to be yielded (each with the detector state at its yield), the detector state
  at exhaustion, the request \<open>self._synthesize\<close> (not \<open>None\<close> after the assertion),
  the handler and the network.
\<close>

fun chunk_loop ::
  "(string \<times> 's) list \<Rightarrow> 's \<Rightarrow> synthesize_req \<Rightarrow> 's handler \<Rightarrow> upstream stream
     \<Rightarrow> out_event list \<times> 's handler \<times> (exn + bool) \<times> upstream stream" where
  "chunk_loop [] final req h net = ([], h\<lparr>sbd := final\<rparr>, Inr True, net)"
| "chunk_loop ((sentence, s) # rest) final req h net =
     (let h1 = h\<lparr>sbd := s\<rparr> in
      if strip sentence = [] then ([], h1, Inr True, net)
      else
        (let req' = req\<lparr>req_text := sentence\<rparr>;
             h2 = h1\<lparr>h_synthesize := Some req'\<rparr>
         in case synthesize_with_engine (h_cli_args h2) sentence
                   (stream_voice (h_cli_args h2) req') True True net of
              (out, Inl e, net') \<Rightarrow> (out, h2, Inl e, net')
            | (out, Inr u, net') \<Rightarrow>
                (case chunk_loop rest final req' h2 net' of
                   (out', h', r, net'') \<Rightarrow> (out @ out', h', r, net''))))"

text \<open>
  The part of the \<open>try\<close> block after the one-shot branch: the command line gate and
  the three stream events.
\<close>

definition handle_stream ::
  "'s segmenter \<Rightarrow> event \<Rightarrow> 's handler \<Rightarrow> upstream stream
     \<Rightarrow> out_event list \<times> 's handler \<times> (exn + bool) \<times> upstream stream" where
  "handle_stream seg ev h net =
     (let cli = h_cli_args h in
      if \<not> getattr (cli_streaming cli) True then ([], h, Inr True, net)
      else
        (case ev of
           SynthesizeStart v \<Rightarrow>
             ([], h\<lparr>is_streaming := Some True, sbd := sbd_new seg,
                     h_synthesize := Some \<lparr>req_text = [], req_voice = v\<rparr>\<rparr>,
              Inr True, net)
         | SynthesizeChunk txt \<Rightarrow>
             (case h_synthesize h of
                None \<Rightarrow> ([], h, Inl AssertionError, net)
              | Some req \<Rightarrow>
                  (case add_chunk seg (sbd h) txt of
                     (sentences, final) \<Rightarrow> chunk_loop sentences final req h net))
         | SynthesizeStop \<Rightarrow>
             (case h_synthesize h of
                None \<Rightarrow> ([], h, Inl AssertionError, net)
              | Some req \<Rightarrow>
                  (case finish seg (sbd h) of (final_text, s) \<Rightarrow>
                     (let h1 = h\<lparr>sbd := s\<rparr> in
                      if final_text \<noteq> [] then
                        (case synthesize_with_engine cli final_text
                                (stream_voice cli req) True True net of
                           (out, Inl e, net') \<Rightarrow> (out, h1, Inl e, net')
                         | (out, Inr u, net') \<Rightarrow>
                             (out @ [SynthesizeStopped],
                              h1\<lparr>is_streaming := Some False\<rparr>, Inr True, net'))
                      else ([SynthesizeStopped],
                            h1\<lparr>is_streaming := Some False\<rparr>, Inr True, net))))
         | _ \<Rightarrow> ([], h, Inr True, net)))"

text \<open>
  The voice of the one-shot branch:
  \<open>(synthesize.voice.name if synthesize.voice else None) or getattr(cli_args, "voice", ...)\<close>;
  a missing or empty name gives the configured voice.
\<close>

definition oneshot_voice :: "cli_args \<Rightarrow> SynthesizeVoice option \<Rightarrow> string" where
  "oneshot_voice cli voice =
     (case (case voice of None \<Rightarrow> None | Some v \<Rightarrow> name v) of
        None \<Rightarrow> getattr (cli_voice cli) default_voice
      | Some n \<Rightarrow> if n \<noteq> [] then n else getattr (cli_voice cli) default_voice)"

text \<open>
  The one-shot branch: the lines of the text are collapsed; an empty text is answered
  with \<open>AudioStop\<close>; otherwise the whole text is one utterance.
\<close>

definition handle_oneshot ::
  "string \<Rightarrow> SynthesizeVoice option \<Rightarrow> 's handler \<Rightarrow> upstream stream
     \<Rightarrow> out_event list \<times> 's handler \<times> (exn + bool) \<times> upstream stream" where
  "handle_oneshot txt voice h net =
     (let cli = h_cli_args h;
          text = join_space (splitlines (strip txt))
      in if text = [] then ([AudioStop], h, Inr True, net)
         else
           (let voice_name = oneshot_voice cli voice
            in case synthesize_with_engine cli text (Some voice_name) True True net of
                 (out, Inl e, net') \<Rightarrow> (out, h, Inl e, net')
               | (out, Inr u, net') \<Rightarrow> (out, h, Inr True, net')))"

text \<open>The body of the \<open>try\<close> block of \<open>handle_event\<close>.\<close>

definition handle_body ::
  "'s segmenter \<Rightarrow> event \<Rightarrow> 's handler \<Rightarrow> upstream stream
     \<Rightarrow> out_event list \<times> 's handler \<times> (exn + bool) \<times> upstream stream" where
  "handle_body seg ev h net =
     (case ev of
        Synthesize txt voice \<Rightarrow>
          if is_streaming h \<noteq> Some True then handle_oneshot txt voice h net
          else handle_stream seg ev h net
      | _ \<Rightarrow> handle_stream seg ev h net)"

text \<open>
  \<open>handle_event\<close>: \<open>Describe\<close> is answered before the \<open>try\<close>; an exception of the
  body is reported as an \<open>Error\<close> event with \<open>str(err)\<close> and the name of its class,
  and raised again.
\<close>

definition handle_event ::
  "'s segmenter \<Rightarrow> event \<Rightarrow> 's handler \<Rightarrow> upstream stream
     \<Rightarrow> out_event list \<times> 's handler \<times> (exn + bool) \<times> upstream stream" where
  "handle_event seg ev h net =
     (case ev of
        Describe \<Rightarrow> ([Info], h, Inr True, net)
      | _ \<Rightarrow>
          (case handle_body seg ev h net of
             (out, h', Inl err, net') \<Rightarrow>
               (out @ [Error (exn_msg err) (exn_class err)], h', Inl err, net')
           | (out, h', Inr b, net') \<Rightarrow> (out, h', Inr b, net')))"

text \<open>The handler as \<open>__init__\<close> leaves it.\<close>

definition init_handler :: "'s segmenter \<Rightarrow> cli_args \<Rightarrow> 's handler" where
  "init_handler seg cli =
     \<lparr>h_cli_args = cli, is_streaming = None, sbd = sbd_new seg, h_synthesize = None\<rparr>"

section \<open>Notions used to state the properties\<close>

text \<open>
  What the loop of \<open>OpenAITTSEngine.stream\<close> announces and where it cuts, for a buffer
  on which the detector resolves: the fields of the header override the fallbacks
  24000 Hz, mono, 16-bit unless they are missing or zero.
\<close>

definition resolved_format :: "bytes \<Rightarrow> AudioFormat" where
  "resolved_format buf =
     (case try_parse_wav_header buf of (ok, data_off, sr, ch, w) \<Rightarrow>
        \<lparr>rate = override sr 24000, width = override w 2, channels = override ch 1\<rparr>)"

definition payload_offset :: "bytes \<Rightarrow> nat" where
  "payload_offset buf = fst (snd (try_parse_wav_header buf))"

text \<open>
  The events of a response whose bytes are \<open>b\<close> in all: none while fewer than 44 bytes
  arrive; otherwise the format and then chunks that carry exactly the bytes from the
  payload offset on.
\<close>

definition surfaced :: "bytes \<Rightarrow> AudioEvent list \<Rightarrow> bool" where
  "surfaced b evs =
     (if length b < 44 then evs = []
      else \<exists>ds. evs = Format (resolved_format b) # map Chunk ds
             \<and> concat ds = drop (payload_offset b) b
             \<and> [] \<notin> set ds)"

text \<open>
  An event sequence is well formed when it is empty, or starts with its only format
  event and continues with chunks.
\<close>

fun format_first :: "AudioEvent list \<Rightarrow> bool" where
  "format_first [] = True"
| "format_first (e # evs) = (is_Format e \<and> list_all is_Chunk evs)"

text \<open>The client-facing event that the relay writes for one adapter event.\<close>

fun client_event :: "cli_args \<Rightarrow> AudioEvent \<Rightarrow> out_event" where
  "client_event cli (Format fmt) = AudioStart (rate fmt) (width fmt) (channels fmt)"
| "client_event cli (Chunk data) = AudioChunk data (getattr (cli_sample_rate cli) 22050) 2 1"

text \<open>An audio-data event carries the configured rate, width 2 and one channel.\<close>

fun chunk_tagged :: "cli_args \<Rightarrow> out_event \<Rightarrow> bool" where
  "chunk_tagged cli (AudioChunk d r w c) =
     (r = getattr (cli_sample_rate cli) 22050 \<and> w = 2 \<and> c = 1)"
| "chunk_tagged cli e = True"

text \<open>
  Three 44-byte RIFF/WAVE headers: 24000 Hz mono 16-bit, 48000 Hz stereo 16-bit, and
  one whose channel count, sample rate and bits per sample are all zero.
\<close>

definition wav_header_24k :: bytes where
  "wav_header_24k =
     [0x52, 0x49, 0x46, 0x46,  0xFF, 0xFF, 0xFF, 0xFF,
      0x57, 0x41, 0x56, 0x45,  0x66, 0x6D, 0x74, 0x20,
      0x10, 0x00, 0x00, 0x00,  0x01, 0x00,  0x01, 0x00,
      0xC0, 0x5D, 0x00, 0x00,  0x80, 0xBB, 0x00, 0x00,
      0x02, 0x00,  0x10, 0x00,  0x64, 0x61, 0x74, 0x61,
      0xFF, 0xFF, 0xFF, 0xFF]"

definition wav_header_48k_stereo :: bytes where
  "wav_header_48k_stereo =
     [0x52, 0x49, 0x46, 0x46,  0xFF, 0xFF, 0xFF, 0xFF,
      0x57, 0x41, 0x56, 0x45,  0x66, 0x6D, 0x74, 0x20,
      0x10, 0x00, 0x00, 0x00,  0x01, 0x00,  0x02, 0x00,
      0x80, 0xBB, 0x00, 0x00,  0x00, 0xEE, 0x02, 0x00,
      0x04, 0x00,  0x10, 0x00,  0x64, 0x61, 0x74, 0x61,
      0xFF, 0xFF, 0xFF, 0xFF]"

definition wav_header_zero :: bytes where
  "wav_header_zero =
     [0x52, 0x49, 0x46, 0x46,  0xFF, 0xFF, 0xFF, 0xFF,
      0x57, 0x41, 0x56, 0x45,  0x66, 0x6D, 0x74, 0x20,
      0x10, 0x00, 0x00, 0x00,  0x01, 0x00,  0x00, 0x00,
      0x00, 0x00, 0x00, 0x00,  0x00, 0x00, 0x00, 0x00,
      0x00, 0x00,  0x00, 0x00,  0x64, 0x61, 0x74, 0x61,
      0xFF, 0xFF, 0xFF, 0xFF]"

text \<open>
  A stand-in for the sentence boundary detector, for concrete runs: it keeps the text
  not yet terminated and completes a sentence at every newline (the library's
  heuristics are not part of this repository).
\<close>

fun line_yields :: "string \<Rightarrow> string \<Rightarrow> (string \<times> string) list \<times> string" where
  "line_yields cur [] = ([], rev cur)"
| "line_yields cur (c # cs) =
     (if c = CHR 0x0A
      then (case line_yields [] cs of (ys, fin) \<Rightarrow> ((rev cur, cs) # ys, fin))
      else line_yields (c # cur) cs)"

definition line_segmenter :: "string segmenter" where
  "line_segmenter =
     \<lparr>sbd_new = [],
      add_chunk = (\<lambda>s txt. line_yields [] (s @ txt)),
      finish = (\<lambda>s. (strip s, []))\<rparr>"

definition no_args :: cli_args where
  "no_args = \<lparr>cli_voice = None, cli_streaming = None, cli_sample_rate = None\<rparr>"

text \<open>The command line with streaming disabled, as \<open>__main__\<close> leaves it by default.\<close>

definition streaming_off :: cli_args where
  "streaming_off = \<lparr>cli_voice = None, cli_streaming = Some False, cli_sample_rate = None\<rparr>"

text \<open>An upstream response that delivers the given fragments and ends.\<close>

definition delivers :: "bytes list \<Rightarrow> upstream" where
  "delivers frags = \<lparr>client_error = None, fragments = frags, stream_error = None\<rparr>"

text \<open>Concrete requests, handlers and events for the runs below.\<close>

definition openai_voice :: string where
  "openai_voice = ''en-US-openai-alloy''"

definition hello_request :: event where
  "hello_request = Synthesize ''Hello.'' (Some (SynthesizeVoice (Some openai_voice)))"

definition h0 :: "string handler" where
  "h0 = init_handler line_segmenter no_args"


definition h_open :: "string handler" where
  "h_open = \<lparr>h_cli_args = no_args, is_streaming = Some True, sbd = [],
             h_synthesize = Some \<lparr>req_text = [], req_voice = None\<rparr>\<rparr>"

definition blank_then_two :: string where
  "blank_then_two = CHR 0x20 # CHR 0x0A # ''Two.'' @ [CHR 0x0A]"


section \<open>The container header detector and the OpenAI loop\<close>


lemma slice_append:
  "j \<le> length b \<Longrightarrow> slice i j (b @ x) = slice i j b"
  by (simp add: slice_def)

lemma try_parse_append:
  "44 \<le> length b \<Longrightarrow> try_parse_wav_header (b @ x) = try_parse_wav_header b"
  by (simp add: try_parse_wav_header_def slice_append)

lemma try_parse_short:
  "length b < 44 \<Longrightarrow> try_parse_wav_header b = (False, 0, None, None, None)"
  by (simp add: try_parse_wav_header_def)

lemma try_parse_ok:
  "44 \<le> length b \<Longrightarrow> fst (try_parse_wav_header b)"
  by (simp add: try_parse_wav_header_def Let_def)

lemma try_parse_off_le:
  "fst (snd (try_parse_wav_header b)) \<le> length b"
  by (simp add: try_parse_wav_header_def Let_def)

lemma openai_loop_got:
  "openai_loop True buf sr ch w cs = map Chunk (filter (\<lambda>b. b \<noteq> []) cs)"
  by (induction cs) simp_all

lemma concat_filter_nonempty:
  "concat (filter (\<lambda>b. b \<noteq> []) cs) = concat cs"
  by (induction cs) simp_all

lemma resolved_format_append:
  "44 \<le> length b \<Longrightarrow> resolved_format (b @ x) = resolved_format b"
  by (simp add: resolved_format_def try_parse_append)

lemma payload_offset_append:
  "44 \<le> length b \<Longrightarrow> payload_offset (b @ x) = payload_offset b"
  by (simp add: payload_offset_def try_parse_append)

lemma payload_offset_le: "payload_offset b \<le> length b"
  by (simp add: payload_offset_def try_parse_off_le)

lemma openai_loop_resolve:
  assumes "c \<noteq> []" and "44 \<le> length (buf @ c)"
  shows "openai_loop False buf 24000 1 2 (c # cs) =
           Format (resolved_format (buf @ c))
           # map Chunk ((if drop (payload_offset (buf @ c)) (buf @ c) \<noteq> []
                         then [drop (payload_offset (buf @ c)) (buf @ c)] else [])
                        @ filter (\<lambda>b. b \<noteq> []) cs)"
proof -
  obtain ok off sr ch w where p: "try_parse_wav_header (buf @ c) = (ok, off, sr, ch, w)"
    by (metis prod_cases5)
  have ok: "ok" using try_parse_ok [OF assms(2)] p by simp
  have off: "payload_offset (buf @ c) = off" by (simp add: payload_offset_def p)
  have fmt: "resolved_format (buf @ c)
               = \<lparr>rate = override sr 24000, width = override w 2, channels = override ch 1\<rparr>"
    by (simp add: resolved_format_def p)
  show ?thesis
    using assms(1) ok by (simp add: p off fmt openai_loop_got Let_def)
qed

lemma openai_loop_unresolved:
  "length buf < 44 \<Longrightarrow> surfaced (buf @ concat cs) (openai_loop False buf 24000 1 2 cs)"
proof (induction cs arbitrary: buf)
  case Nil
  then show ?case by (simp add: surfaced_def)
next
  case (Cons c cs)
  show ?case
  proof (cases "c = []")
    case True
    with Cons.IH [OF Cons.prems] show ?thesis by simp
  next
    case nonempty: False
    show ?thesis
    proof (cases "length (buf @ c) < 44")
      case True
      have step: "openai_loop False buf 24000 1 2 (c # cs)
                    = openai_loop False (buf @ c) 24000 1 2 cs"
        using nonempty True by (simp add: try_parse_short)
      show ?thesis
        using Cons.IH [OF True] by (simp only: step concat.simps append_assoc)
    next
      case False
      then have long: "44 \<le> length (buf @ c)" by simp
      let ?off = "payload_offset (buf @ c)"
      let ?payload = "drop ?off (buf @ c)"
      let ?ds = "(if ?payload \<noteq> [] then [?payload] else []) @ filter (\<lambda>b. b \<noteq> []) cs"
      have ev: "openai_loop False buf 24000 1 2 (c # cs)
                  = Format (resolved_format (buf @ c)) # map Chunk ?ds"
        by (rule openai_loop_resolve [OF nonempty long])
      have f: "resolved_format (buf @ concat (c # cs)) = resolved_format (buf @ c)"
        using resolved_format_append [OF long, of "concat cs"] by simp
      have o: "payload_offset (buf @ concat (c # cs)) = ?off"
        using payload_offset_append [OF long, of "concat cs"] by simp
      have le: "?off \<le> length (buf @ c)" by (rule payload_offset_le)
      have cat: "concat ?ds = drop ?off (buf @ concat (c # cs))"
        using le by (simp add: concat_filter_nonempty)
      have ne: "[] \<notin> set ?ds" by simp
      have notshort: "\<not> length (buf @ concat (c # cs)) < 44" using long by simp
      have "\<exists>ds. openai_loop False buf 24000 1 2 (c # cs)
                   = Format (resolved_format (buf @ concat (c # cs))) # map Chunk ds
               \<and> concat ds = drop (payload_offset (buf @ concat (c # cs))) (buf @ concat (c # cs))
               \<and> [] \<notin> set ds"
        using ev cat ne unfolding f o by blast
      then show ?thesis
        unfolding surfaced_def using notshort by presburger
    qed
  qed
qed

lemma openai_events_surfaced: "surfaced (concat cs) (openai_events cs)"
  using openai_loop_unresolved [of "[]" cs] by (simp add: openai_events_def)


lemma slice2:
  "i + 2 \<le> length xs \<Longrightarrow> slice i (i + 2) xs = [xs ! i, xs ! (i + 1)]"
  by (auto simp: slice_def list_eq_iff_nth_eq nth_Cons' less_Suc_eq numeral_2_eq_2)

lemma slice4:
  "i + 4 \<le> length xs \<Longrightarrow>
   slice i (i + 4) xs = [xs ! i, xs ! (i + 1), xs ! (i + 2), xs ! (i + 3)]"
  by (auto simp: slice_def list_eq_iff_nth_eq nth_Cons' less_Suc_eq eval_nat_numeral)

lemma header_fields:
  assumes "44 \<le> length buf" and "slice 0 4 buf = RIFF" and "slice 8 12 buf = WAVE"
  shows "let ch = uint (buf ! 22) + 256 * uint (buf ! 23);
             sr = uint (buf ! 24) + 256 * uint (buf ! 25)
                  + 65536 * uint (buf ! 26) + 16777216 * uint (buf ! 27);
             bits = uint (buf ! 34) + 256 * uint (buf ! 35)
         in try_parse_wav_header buf
              = (True, 44, Some sr, Some ch, if bits = 0 then None else Some (bits div 8))
          \<and> resolved_format buf
              = \<lparr>rate = (if sr = 0 then 24000 else sr),
                 width = (if bits div 8 = 0 then 2 else bits div 8),
                 channels = (if ch = 0 then 1 else ch)\<rparr>
          \<and> payload_offset buf = 44"
proof -
  have a: "slice 22 24 buf = [buf ! 22, buf ! 23]"
    using slice2 [of 22 buf] assms(1) by simp
  have b: "slice 24 28 buf = [buf ! 24, buf ! 25, buf ! 26, buf ! 27]"
    using slice4 [of 24 buf] assms(1) by simp
  have c: "slice 34 36 buf = [buf ! 34, buf ! 35]"
    using slice2 [of 34 buf] assms(1) by simp
  have p: "try_parse_wav_header buf
        = (True, 44, Some (from_bytes_little (slice 24 28 buf)),
           Some (from_bytes_little (slice 22 24 buf)),
           if from_bytes_little (slice 34 36 buf) \<noteq> 0
           then Some (from_bytes_little (slice 34 36 buf) div 8) else None)"
    using assms by (simp add: try_parse_wav_header_def Let_def)
  show ?thesis
    unfolding resolved_format_def payload_offset_def p
    by (simp add: a b c override_def Let_def)
qed


lemma openai_loop_pre:
  "length (buf @ concat pre) < 44 \<Longrightarrow>
   openai_loop False buf 24000 1 2 (pre @ xs)
     = openai_loop False (buf @ concat pre) 24000 1 2 xs"
proof (induction pre arbitrary: buf)
  case Nil
  then show ?case by simp
next
  case (Cons c pre)
  show ?case
  proof (cases "c = []")
    case True
    with Cons show ?thesis by simp
  next
    case False
    from Cons.prems have short: "length (buf @ c) < 44" by simp
    from Cons.prems have "length ((buf @ c) @ concat pre) < 44" by simp
    from Cons.IH [OF this] show ?thesis
      using False short by (simp add: try_parse_short)
  qed
qed

lemma surfacedD:
  "surfaced b evs \<Longrightarrow> 44 \<le> length b \<Longrightarrow>
   \<exists>ds. evs = Format (resolved_format b) # map Chunk ds
        \<and> concat ds = drop (payload_offset b) b \<and> [] \<notin> set ds"
  by (simp add: surfaced_def)

lemma surfaced_short: "surfaced b evs \<Longrightarrow> length b < 44 \<Longrightarrow> evs = []"
  by (simp add: surfaced_def)

text \<open>
  Claim C5. On a buffer of at least 44 bytes that carries the magic signature, the
  detector resolves with payload offset 44; the channel count is the little-endian
  16-bit integer at offset 22, the sample rate the little-endian 32-bit integer at
  offset 24, the bits per sample the little-endian 16-bit integer at offset 34; the
  sample width is the bits per sample divided by 8; and in the format that the stream
  announces a zero field keeps the fallback: 24000 Hz, one channel, width 2.
\<close>

theorem C5_header_fields:
  assumes "44 \<le> length buf" and "slice 0 4 buf = RIFF" and "slice 8 12 buf = WAVE"
  shows "let ch = uint (buf ! 22) + 256 * uint (buf ! 23);
             sr = uint (buf ! 24) + 256 * uint (buf ! 25)
                  + 65536 * uint (buf ! 26) + 16777216 * uint (buf ! 27);
             bits = uint (buf ! 34) + 256 * uint (buf ! 35)
         in try_parse_wav_header buf
              = (True, 44, Some sr, Some ch, if bits = 0 then None else Some (bits div 8))
          \<and> (\<forall>cs. concat cs = buf \<longrightarrow>
                (\<exists>ds. openai_events cs
                   = Format \<lparr>rate = (if sr = 0 then 24000 else sr),
                             width = (if bits div 8 = 0 then 2 else bits div 8),
                             channels = (if ch = 0 then 1 else ch)\<rparr>
                     # map Chunk ds))"
proof -
  have "\<exists>ds. openai_events cs = Format (resolved_format buf) # map Chunk ds"
    if "concat cs = buf" for cs
    using surfacedD [OF openai_events_surfaced [of cs]] that assms(1) by auto
  then show ?thesis
    using header_fields [OF assms] by (simp add: Let_def)
qed

text \<open>
  Claim C5 on two concrete headers: one that announces 48000 Hz stereo 16-bit, and one
  whose three fields are zero, for which the fallbacks are announced.
\<close>

theorem C5_header_fields_witness:
  "try_parse_wav_header wav_header_48k_stereo = (True, 44, Some 48000, Some 2, Some 2)
   \<and> (\<exists>ds. openai_events [take 30 wav_header_48k_stereo, drop 30 wav_header_48k_stereo]
          = Format \<lparr>rate = 48000, width = 2, channels = 2\<rparr> # map Chunk ds)
   \<and> try_parse_wav_header wav_header_zero = (True, 44, Some 0, Some 0, None)
   \<and> (\<exists>ds. openai_events [wav_header_zero]
          = Format \<lparr>rate = 24000, width = 2, channels = 1\<rparr> # map Chunk ds)"
proof -
  have a: "44 \<le> length wav_header_48k_stereo" "slice 0 4 wav_header_48k_stereo = RIFF"
    "slice 8 12 wav_header_48k_stereo = WAVE"
    by (simp_all add: wav_header_48k_stereo_def slice_def RIFF_def WAVE_def)
  have b: "44 \<le> length wav_header_zero" "slice 0 4 wav_header_zero = RIFF"
    "slice 8 12 wav_header_zero = WAVE"
    by (simp_all add: wav_header_zero_def slice_def RIFF_def WAVE_def)
  have c: "concat [take 30 wav_header_48k_stereo, drop 30 wav_header_48k_stereo]
             = wav_header_48k_stereo" by simp
  have d: "concat [wav_header_zero] = wav_header_zero" by simp
  have e: "wav_header_48k_stereo ! 22 = 2" "wav_header_48k_stereo ! 23 = 0"
    "wav_header_48k_stereo ! 24 = 0x80" "wav_header_48k_stereo ! 25 = 0xBB"
    "wav_header_48k_stereo ! 26 = 0" "wav_header_48k_stereo ! 27 = 0"
    "wav_header_48k_stereo ! 34 = 0x10" "wav_header_48k_stereo ! 35 = 0"
    by (simp_all add: wav_header_48k_stereo_def)
  have f: "wav_header_zero ! 22 = 0" "wav_header_zero ! 23 = 0"
    "wav_header_zero ! 24 = 0" "wav_header_zero ! 25 = 0"
    "wav_header_zero ! 26 = 0" "wav_header_zero ! 27 = 0"
    "wav_header_zero ! 34 = 0" "wav_header_zero ! 35 = 0"
    by (simp_all add: wav_header_zero_def)
  from C5_header_fields [OF a] have
    "try_parse_wav_header wav_header_48k_stereo = (True, 44, Some 48000, Some 2, Some 2)
     \<and> (\<exists>ds. openai_events [take 30 wav_header_48k_stereo, drop 30 wav_header_48k_stereo]
          = Format \<lparr>rate = 48000, width = 2, channels = 2\<rparr> # map Chunk ds)"
    unfolding Let_def e using c by (simp del: concat.simps)
  moreover from C5_header_fields [OF b] have
    "try_parse_wav_header wav_header_zero = (True, 44, Some 0, Some 0, None)
   \<and> (\<exists>ds. openai_events [wav_header_zero]
          = Format \<lparr>rate = 24000, width = 2, channels = 1\<rparr> # map Chunk ds)"
    unfolding Let_def f using d by (simp del: concat.simps)
  ultimately show ?thesis by simp
qed

text \<open>
  Claim C6. While fewer than 44 bytes are accumulated the detector reports that it is
  not resolved, and the stream of a response of fewer than 44 bytes in all yields
  nothing. On 44 bytes or more without the magic signature at offsets 0 and 8 it
  resolves with payload offset 0 and no format field; the stream then announces the
  fallback format and surfaces the whole buffer.
\<close>

theorem C6_incomplete_or_raw:
  "(length buf < 44 \<longrightarrow> try_parse_wav_header buf = (False, 0, None, None, None))
   \<and> (length (concat cs) < 44 \<longrightarrow> openai_events cs = [])
   \<and> (44 \<le> length buf \<and> \<not> (slice 0 4 buf = RIFF \<and> slice 8 12 buf = WAVE) \<longrightarrow>
        try_parse_wav_header buf = (True, 0, None, None, None))
   \<and> (44 \<le> length (concat cs)
        \<and> \<not> (slice 0 4 (concat cs) = RIFF \<and> slice 8 12 (concat cs) = WAVE) \<longrightarrow>
        (\<exists>ds. openai_events cs
                = Format \<lparr>rate = 24000, width = 2, channels = 1\<rparr> # map Chunk ds
             \<and> concat ds = concat cs))"
proof -
  have 1: "length buf < 44 \<longrightarrow> try_parse_wav_header buf = (False, 0, None, None, None)"
    by (simp add: try_parse_short)
  have 2: "length (concat cs) < 44 \<longrightarrow> openai_events cs = []"
    using surfaced_short [OF openai_events_surfaced [of cs]] by blast
  have raw: "try_parse_wav_header b = (True, 0, None, None, None)"
    if "44 \<le> length b" "\<not> (slice 0 4 b = RIFF \<and> slice 8 12 b = WAVE)" for b
    using that by (auto simp: try_parse_wav_header_def)
  have 4: "\<exists>ds. openai_events cs
                = Format \<lparr>rate = 24000, width = 2, channels = 1\<rparr> # map Chunk ds
             \<and> concat ds = concat cs"
    if l: "44 \<le> length (concat cs)"
      and m: "\<not> (slice 0 4 (concat cs) = RIFF \<and> slice 8 12 (concat cs) = WAVE)"
  proof -
    have f: "resolved_format (concat cs) = \<lparr>rate = 24000, width = 2, channels = 1\<rparr>"
      by (simp add: resolved_format_def raw [OF l m] override_def)
    have o: "payload_offset (concat cs) = 0"
      by (simp add: payload_offset_def raw [OF l m])
    from surfacedD [OF openai_events_surfaced [of cs] l] show ?thesis
      unfolding f o by auto
  qed
  show ?thesis using 1 2 raw [of buf] 4 by blast
qed

text \<open>
  Claim C7. When the fragments \<open>pre\<close> leave the detector unresolved and the fragment
  \<open>c\<close> resolves it, the stream yields the format, then the bytes of the accumulated
  buffer from the payload offset on as one leading chunk (when there are any), then
  every later non-empty fragment as it is. Over a whole response of 44 bytes or more,
  however it is split into fragments, the chunks carry exactly the bytes from the
  payload offset on, each once and in order. In particular a header of 44 bytes with
  one channel, 24000 Hz and 16 bits followed by the bytes \<open>data\<close> yields the format
  (24000, 2, 1) and chunks that carry exactly \<open>data\<close>.
\<close>

theorem C7_payload_surfaced:
  "(length (concat pre) < 44 \<and> 44 \<le> length (concat pre @ c) \<longrightarrow>
      (let buf = concat pre @ c; payload = drop (payload_offset buf) buf
       in openai_events (pre @ c # rest)
            = Format (resolved_format buf)
              # (if payload \<noteq> [] then [Chunk payload] else [])
              @ map Chunk (filter (\<lambda>b. b \<noteq> []) rest)))
   \<and> (44 \<le> length (concat cs) \<longrightarrow>
        (\<exists>ds. openai_events cs = Format (resolved_format (concat cs)) # map Chunk ds
             \<and> concat ds = drop (payload_offset (concat cs)) (concat cs)))
   \<and> (concat cs = hdr @ data \<and> length hdr = 44
        \<and> slice 0 4 hdr = RIFF \<and> slice 8 12 hdr = WAVE
        \<and> from_bytes_little (slice 22 24 hdr) = 1
        \<and> from_bytes_little (slice 24 28 hdr) = 24000
        \<and> from_bytes_little (slice 34 36 hdr) = 16 \<longrightarrow>
        (\<exists>ds. openai_events cs
                = Format \<lparr>rate = 24000, width = 2, channels = 1\<rparr> # map Chunk ds
             \<and> concat ds = data))"
proof -
  have 1: "openai_events (pre @ c # rest)
            = Format (resolved_format (concat pre @ c))
              # (if drop (payload_offset (concat pre @ c)) (concat pre @ c) \<noteq> []
                 then [Chunk (drop (payload_offset (concat pre @ c)) (concat pre @ c))]
                 else [])
              @ map Chunk (filter (\<lambda>b. b \<noteq> []) rest)"
    if s: "length (concat pre) < 44" and l: "44 \<le> length (concat pre @ c)"
  proof -
    from s l have ne: "c \<noteq> []" by auto
    have "openai_events (pre @ c # rest)
            = openai_loop False (concat pre) 24000 1 2 (c # rest)"
      using openai_loop_pre [of "[]" pre "c # rest"] s by (simp add: openai_events_def)
    then show ?thesis
      using openai_loop_resolve [OF ne l, of rest] by simp
  qed
  have 2: "44 \<le> length (concat cs) \<longrightarrow>
        (\<exists>ds. openai_events cs = Format (resolved_format (concat cs)) # map Chunk ds
             \<and> concat ds = drop (payload_offset (concat cs)) (concat cs))"
    using surfacedD [OF openai_events_surfaced [of cs]] by blast
  have 3: "\<exists>ds. openai_events cs
                = Format \<lparr>rate = 24000, width = 2, channels = 1\<rparr> # map Chunk ds
             \<and> concat ds = data"
    if c: "concat cs = hdr @ data" and l: "length hdr = 44"
      and m: "slice 0 4 hdr = RIFF" "slice 8 12 hdr = WAVE"
      and f: "from_bytes_little (slice 22 24 hdr) = 1"
        "from_bytes_little (slice 24 28 hdr) = 24000"
        "from_bytes_little (slice 34 36 hdr) = 16"
  proof -
    have p: "try_parse_wav_header hdr = (True, 44, Some 24000, Some 1, Some 2)"
      using l m f by (simp add: try_parse_wav_header_def Let_def)
    have l': "44 \<le> length hdr" using l by simp
    have fm: "resolved_format (concat cs) = \<lparr>rate = 24000, width = 2, channels = 1\<rparr>"
      unfolding c resolved_format_append [OF l']
      by (simp add: resolved_format_def p override_def)
    have o: "payload_offset (concat cs) = 44"
      unfolding c payload_offset_append [OF l'] by (simp add: payload_offset_def p)
    have "44 \<le> length (concat cs)" using c l by simp
    from surfacedD [OF openai_events_surfaced [of cs] this] show ?thesis
      unfolding fm o using c l by auto
  qed
  show ?thesis using 1 2 3 unfolding Let_def by blast
qed

text \<open>
  Claim C6 on concrete inputs: three bytes in two fragments, and 45 zero bytes in two
  fragments.
\<close>

theorem C6_incomplete_or_raw_witness:
  "length [1, 2, 3 :: byte] < 44
   \<and> try_parse_wav_header [1, 2, 3] = (False, 0, None, None, None)
   \<and> openai_events [[1], [2, 3]] = []
   \<and> 44 \<le> length (replicate 45 (0 :: byte))
   \<and> try_parse_wav_header (replicate 45 0) = (True, 0, None, None, None)
   \<and> (\<exists>ds. openai_events [replicate 40 0, replicate 5 0]
          = Format \<lparr>rate = 24000, width = 2, channels = 1\<rparr> # map Chunk ds
        \<and> concat ds = replicate 45 0)"
proof -
  have a: "length [1, 2, 3 :: byte] < 44" "length (concat [[1], [2, 3 :: byte]]) < 44"
    by simp_all
  have b: "44 \<le> length (replicate 45 (0 :: byte))" by simp
  have c: "\<not> (slice 0 4 (replicate 45 (0 :: byte)) = RIFF
              \<and> slice 8 12 (replicate 45 (0 :: byte)) = WAVE)"
    by code_simp
  have d: "concat [replicate 40 0, replicate 5 (0 :: byte)] = replicate 45 0"
    by (simp add: replicate_add [symmetric])
  from C6_incomplete_or_raw [of "[1, 2, 3]" "[[1], [2, 3]]"] a
  have 1: "try_parse_wav_header [1, 2, 3] = (False, 0, None, None, None)
           \<and> openai_events [[1], [2, 3]] = []"
    by blast
  from C6_incomplete_or_raw [of "replicate 45 0" "[replicate 40 0, replicate 5 0]"] b c
  have 2: "try_parse_wav_header (replicate 45 0) = (True, 0, None, None, None)
           \<and> (\<exists>ds. openai_events [replicate 40 0, replicate 5 0]
                  = Format \<lparr>rate = 24000, width = 2, channels = 1\<rparr> # map Chunk ds
                \<and> concat ds = replicate 45 0)"
    unfolding d by blast
  show ?thesis using a(1) b 1 2 by blast
qed

text \<open>
  Claim C7 on a concrete response: the 24000 Hz header split after 40 bytes, its last
  4 bytes arriving with two bytes of payload, then an empty fragment and one more byte.
\<close>

theorem C7_payload_surfaced_witness:
  "openai_events [take 40 wav_header_24k, drop 40 wav_header_24k @ [1, 2], [], [3]]
     = [Format \<lparr>rate = 24000, width = 2, channels = 1\<rparr>, Chunk [1, 2], Chunk [3]]
   \<and> (\<exists>ds. openai_events [take 40 wav_header_24k, drop 40 wav_header_24k @ [1, 2], [], [3]]
          = Format \<lparr>rate = 24000, width = 2, channels = 1\<rparr> # map Chunk ds
        \<and> concat ds = [1, 2, 3])"
proof -
  let ?c = "drop 40 wav_header_24k @ [1, 2]"
  have cat: "concat [take 40 wav_header_24k] @ ?c = wav_header_24k @ [1, 2]" by simp
  have l: "length wav_header_24k = 44" by (simp add: wav_header_24k_def)
  have a: "length (concat [take 40 wav_header_24k]) < 44
           \<and> 44 \<le> length (concat [take 40 wav_header_24k] @ ?c)"
    by (simp add: l)
  have p: "try_parse_wav_header (wav_header_24k @ [1, 2])
             = (True, 44, Some 24000, Some 1, Some 2)"
    by (simp add: try_parse_wav_header_def wav_header_24k_def slice_def RIFF_def WAVE_def)
  have f: "resolved_format (wav_header_24k @ [1, 2])
             = \<lparr>rate = 24000, width = 2, channels = 1\<rparr>"
    by (simp add: resolved_format_def p override_def)
  have o: "payload_offset (wav_header_24k @ [1, 2]) = 44"
    by (simp add: payload_offset_def p)
  have 1: "openai_events ([take 40 wav_header_24k] @ ?c # [[], [3]])
             = [Format \<lparr>rate = 24000, width = 2, channels = 1\<rparr>, Chunk [1, 2], Chunk [3]]"
    using C7_payload_surfaced [of "[take 40 wav_header_24k]" ?c "[[], [3]]"] a
    unfolding Let_def cat f o by (simp add: l)
  have b: "concat [take 40 wav_header_24k, ?c, [], [3]] = wav_header_24k @ [1, 2, 3]
           \<and> length wav_header_24k = 44
           \<and> slice 0 4 wav_header_24k = RIFF \<and> slice 8 12 wav_header_24k = WAVE
           \<and> from_bytes_little (slice 22 24 wav_header_24k) = 1
           \<and> from_bytes_little (slice 24 28 wav_header_24k) = 24000
           \<and> from_bytes_little (slice 34 36 wav_header_24k) = 16"
    by (simp add: wav_header_24k_def slice_def RIFF_def WAVE_def)
  have 2: "\<exists>ds. openai_events [take 40 wav_header_24k, ?c, [], [3]]
          = Format \<lparr>rate = 24000, width = 2, channels = 1\<rparr> # map Chunk ds
        \<and> concat ds = [1, 2, 3]"
    using C7_payload_surfaced [of _ _ _ "[take 40 wav_header_24k, ?c, [], [3]]"
        wav_header_24k "[1, 2, 3]"] b
    by blast
  show ?thesis using 1 2 by simp
qed

section \<open>The relay\<close>

lemma relay_announced:
  "relay cli ss True evs = (map (client_event cli) (filter is_Chunk evs), True)"
  by (induction evs) (auto split: AudioEvent.splits elim: is_Chunk.elims)

lemma relay_start:
  "relay cli True False evs =
     (map (client_event cli) (takeWhile is_Chunk evs)
        @ (case dropWhile is_Chunk evs of
             [] \<Rightarrow> []
           | e # post \<Rightarrow> client_event cli e # map (client_event cli) (filter is_Chunk post)),
      \<not> list_all is_Chunk evs)"
proof (induction evs)
  case Nil
  then show ?case by simp
next
  case (Cons e evs)
  then show ?case by (cases e) (simp_all add: relay_announced)
qed

lemma relay_tagged: "list_all (chunk_tagged cli) (fst (relay cli ss ann evs))"
proof (induction evs arbitrary: ann)
  case Nil
  then show ?case by simp
next
  case (Cons e evs)
  show ?case
  proof (cases e)
    case (Format f)
    then show ?thesis using Cons [of True] Cons [of ann] by (auto simp: case_prod_beta)
  next
    case (Chunk d)
    then show ?thesis using Cons [of ann] by (auto simp: case_prod_beta)
  qed
qed


lemma swe_unroutable:
  "pick voice = None \<Longrightarrow>
   synthesize_with_engine cli text voice ss st net = ([], Inl TypeError_unpack, net)"
  by (simp add: synthesize_with_engine_def)

lemma swe_routed:
  assumes "pick voice = Some (p, eng, v)"
    and "engine_stream eng text v cli (shd net) = (evs, err)"
  shows "synthesize_with_engine cli text voice True True net =
           (fst (relay cli True False evs)
              @ (if err = None \<and> \<not> list_all is_Chunk evs then [AudioStop] else []),
            (case err of Some e \<Rightarrow> Inl e | None \<Rightarrow> Inr ()),
            stl net)"
  using assms by (auto simp: synthesize_with_engine_def relay_start split: option.splits)

lemma swe_tagged:
  "list_all (chunk_tagged cli) (fst (synthesize_with_engine cli text voice ss st net))"
proof (cases "pick voice")
  case None
  then show ?thesis by (simp add: swe_unroutable)
next
  case (Some t)
  obtain p eng v where t: "t = (p, eng, v)" by (cases t)
  obtain evs err where e: "engine_stream eng text v cli (shd net) = (evs, err)"
    by (cases "engine_stream eng text v cli (shd net)")
  obtain out a where r: "relay cli ss False evs = (out, a)"
    by (cases "relay cli ss False evs")
  have "list_all (chunk_tagged cli) out"
    using relay_tagged [of cli ss False evs] r by simp
  then show ?thesis
    using Some t e r by (simp add: synthesize_with_engine_def split: option.splits)
qed

lemma chunk_loop_tagged:
  "list_all (chunk_tagged (h_cli_args h)) (fst (chunk_loop ys final req h net))"
proof (induction ys arbitrary: req h net)
  case Nil
  then show ?case by simp
next
  case (Cons y ys)
  obtain sentence s where y: "y = (sentence, s)" by (cases y)
  let ?cli = "h_cli_args h"
  let ?req = "req\<lparr>req_text := sentence\<rparr>"
  let ?h2 = "h\<lparr>sbd := s, h_synthesize := Some ?req\<rparr>"
  show ?case
  proof (cases "strip sentence = []")
    case True
    then show ?thesis by (simp add: y)
  next
    case False
    obtain out r net' where
      s: "synthesize_with_engine ?cli sentence (stream_voice ?cli ?req) True True net
            = (out, r, net')"
      by (metis prod_cases3)
    have o: "list_all (chunk_tagged ?cli) out"
      using swe_tagged [of ?cli sentence "stream_voice ?cli ?req" True True net] s by simp
    show ?thesis
    proof (cases r)
      case (Inl e)
      then show ?thesis using False s o by (simp add: y Let_def)
    next
      case (Inr u)
      have "list_all (chunk_tagged ?cli) (fst (chunk_loop ys final ?req ?h2 net'))"
        using Cons.IH [where req = ?req and h = ?h2 and net = net'] by simp
      then show ?thesis
        using False s o Inr by (simp add: y case_prod_beta Let_def)
    qed
  qed
qed


lemma handle_stream_tagged:
  "list_all (chunk_tagged (h_cli_args h)) (fst (handle_stream seg ev h net))"
proof (cases "getattr (cli_streaming (h_cli_args h)) True")
  case False
  then show ?thesis by (simp add: handle_stream_def)
next
  case on: True
  show ?thesis
  proof (cases ev)
    case (SynthesizeChunk tx)
    show ?thesis
    proof (cases "h_synthesize h")
      case None
      then show ?thesis using on SynthesizeChunk by (simp add: handle_stream_def)
    next
      case (Some req)
      obtain ys final where a: "add_chunk seg (sbd h) tx = (ys, final)"
        by (cases "add_chunk seg (sbd h) tx")
      show ?thesis
        using on SynthesizeChunk Some a chunk_loop_tagged [of h ys final req net]
        by (simp add: handle_stream_def)
    qed
  next
    case SynthesizeStop
    show ?thesis
    proof (cases "h_synthesize h")
      case None
      then show ?thesis using on SynthesizeStop by (simp add: handle_stream_def)
    next
      case (Some req)
      obtain final_text s where f: "finish seg (sbd h) = (final_text, s)"
        by (cases "finish seg (sbd h)")
      obtain out r net' where
        e: "synthesize_with_engine (h_cli_args h) final_text
              (stream_voice (h_cli_args h) req) True True net = (out, r, net')"
        by (metis prod_cases3)
      have "list_all (chunk_tagged (h_cli_args h)) out"
        using swe_tagged [of "h_cli_args h" final_text
            "stream_voice (h_cli_args h) req" True True net] e by simp
      then show ?thesis
        using on SynthesizeStop Some f e
        by (cases r) (simp_all add: handle_stream_def Let_def)
    qed
  qed (simp_all add: handle_stream_def on)
qed

lemma handle_oneshot_tagged:
  "list_all (chunk_tagged (h_cli_args h)) (fst (handle_oneshot txt voice h net))"
proof -
  let ?cli = "h_cli_args h"
  let ?text = "join_space (splitlines (strip txt))"
  obtain out r net' where
    e: "synthesize_with_engine ?cli ?text (Some (oneshot_voice ?cli voice)) True True net
          = (out, r, net')"
    by (metis prod_cases3)
  have "list_all (chunk_tagged ?cli) out"
    using swe_tagged [of ?cli ?text "Some (oneshot_voice ?cli voice)" True True net] e
    by simp
  then show ?thesis
    using e by (cases r) (simp_all add: handle_oneshot_def Let_def)
qed

lemma handle_body_tagged:
  "list_all (chunk_tagged (h_cli_args h)) (fst (handle_body seg ev h net))"
  by (cases ev) (simp_all add: handle_body_def handle_stream_tagged handle_oneshot_tagged)

text \<open>
  Claim C9. Every audio-data event that the handler writes, for any event it handles
  and in any state, carries the configured sample rate (22050 when none is
  configured), width 2 and one channel, whatever format the start-of-audio event of
  the utterance announced.
\<close>

theorem C9_chunk_tags:
  "\<forall>e \<in> set (fst (handle_event seg ev h net)).
     \<forall>d r w c. e = AudioChunk d r w c \<longrightarrow>
       r = getattr (cli_sample_rate (h_cli_args h)) 22050 \<and> w = 2 \<and> c = 1"
proof -
  obtain out h' r net' where b: "handle_body seg ev h net = (out, h', r, net')"
    by (metis prod_cases4)
  have "list_all (chunk_tagged (h_cli_args h)) out"
    using handle_body_tagged [of h seg ev net] b by simp
  then have "list_all (chunk_tagged (h_cli_args h)) (fst (handle_event seg ev h net))"
    using b by (cases ev; cases r) (simp_all add: handle_event_def)
  then show ?thesis
    by (auto simp: list_all_iff)
qed

lemma is_AudioStart_client_event [simp]: "is_AudioStart (client_event cli e) = is_Format e"
  by (cases e) simp_all

lemma client_event_not_stop [simp]: "client_event cli e \<noteq> AudioStop"
  by (cases e) simp_all

lemma not_Chunk_iff [simp]: "(\<not> is_Chunk e) = is_Format e"
  by (cases e) simp_all

lemma filter_Format_chunks: "list_all is_Chunk xs \<Longrightarrow> filter is_Format xs = []"
  by (induction xs) (auto elim: is_Chunk.elims)

lemma relay_prefix:
  "list_all is_Chunk pre \<Longrightarrow>
   relay cli True False (pre @ Format f # post) =
     (map (client_event cli) pre
        @ AudioStart (rate f) (width f) (channels f)
        # map (client_event cli) (filter is_Chunk post), True)"
  by (induction pre) (auto simp: relay_announced elim: is_Chunk.elims)

lemma relay_chunks_only:
  "list_all is_Chunk evs \<Longrightarrow> relay cli True False evs = (map (client_event cli) evs, False)"
  by (induction evs) (auto elim: is_Chunk.elims)

lemma split_first_format:
  "\<not> list_all is_Chunk evs \<Longrightarrow>
   \<exists>pre f post. evs = pre @ Format f # post \<and> list_all is_Chunk pre"
proof (induction evs)
  case Nil
  then show ?case by simp
next
  case (Cons e evs)
  show ?case
  proof (cases e)
    case (Format f)
    then show ?thesis by (intro exI [of _ "[]"] exI [of _ f] exI [of _ evs]) simp
  next
    case (Chunk d)
    with Cons.prems have "\<not> list_all is_Chunk evs" by simp
    from Cons.IH [OF this] obtain pre f post where
      "evs = pre @ Format f # post" "list_all is_Chunk pre" by blast
    then show ?thesis
      using Chunk by (intro exI [of _ "e # pre"] exI [of _ f] exI [of _ post]) simp
  qed
qed

lemma count_start_chunks:
  "filter is_AudioStart (map (client_event cli) (filter is_Chunk xs)) = []"
  by (induction xs) (auto elim: is_Chunk.elims)

lemma count_start_chunks':
  "list_all is_Chunk xs \<Longrightarrow> filter is_AudioStart (map (client_event cli) xs) = []"
  by (induction xs) (auto elim: is_Chunk.elims)

lemma no_stop_map: "filter (\<lambda>e. e = AudioStop) (map (client_event cli) xs) = []"
  by (induction xs) simp_all

lemma relay_count_start:
  "length (filter is_AudioStart (fst (relay cli True False evs)))
     = (if list_all is_Chunk evs then 0 else 1)"
proof (cases "list_all is_Chunk evs")
  case True
  then show ?thesis by (simp add: relay_chunks_only count_start_chunks')
next
  case False
  from split_first_format [OF this] obtain pre f post where
    e: "evs = pre @ Format f # post" and p: "list_all is_Chunk pre" by blast
  have "\<not> list_all is_Chunk evs" by (rule False)
  then show ?thesis
    unfolding e using p
    by (simp add: relay_prefix count_start_chunks count_start_chunks' del: list_all_append)
qed

lemma relay_no_stop:
  "filter (\<lambda>e. e = AudioStop) (fst (relay cli True False evs)) = []"
proof (cases "list_all is_Chunk evs")
  case True
  then show ?thesis by (simp add: relay_chunks_only no_stop_map)
next
  case False
  from split_first_format [OF this] obtain pre f post where
    e: "evs = pre @ Format f # post" and p: "list_all is_Chunk pre" by blast
  show ?thesis
    unfolding e using p by (simp add: relay_prefix no_stop_map)
qed

text \<open>
  Claim C2. For one utterance relayed with \<open>send_start\<close> and \<open>send_stop\<close> true:
  at most one start-of-audio event and at most one end-of-audio event are written;
  when the adapter's events are exhausted without an exception there are as many of
  the one as of the other; an end-of-audio event is the last event and follows a
  start-of-audio event; and the start-of-audio event is written upon the first format
  event of the adapter, with its fields, right after the chunks relayed before it,
  and not at all when the adapter yields no format.
\<close>

theorem C2_start_stop_pairing:
  assumes "synthesize_with_engine cli utt voice True True net = (out, r, net')"
  shows "length (filter is_AudioStart out) \<le> 1
    \<and> length (filter (\<lambda>e. e = AudioStop) out) \<le> 1
    \<and> (r = Inr () \<longrightarrow>
         length (filter (\<lambda>e. e = AudioStop) out) = length (filter is_AudioStart out))
    \<and> (AudioStop \<in> set out \<longrightarrow>
         (\<exists>pre. out = pre @ [AudioStop] \<and> AudioStop \<notin> set pre
                \<and> (\<exists>e \<in> set pre. is_AudioStart e)))
    \<and> (\<forall>p eng v evs err.
          pick voice = Some (p, eng, v)
          \<and> engine_stream eng utt v cli (shd net) = (evs, err) \<longrightarrow>
          (list_all is_Chunk evs \<longrightarrow> filter is_AudioStart out = [])
          \<and> (\<forall>pre f post. evs = pre @ Format f # post \<and> list_all is_Chunk pre \<longrightarrow>
                take (Suc (length pre)) out
                  = map (client_event cli) pre
                    @ [AudioStart (rate f) (width f) (channels f)]))"
proof (cases "pick voice")
  case None
  with assms have "out = []" "r = Inl TypeError_unpack"
    by (simp_all add: swe_unroutable)
  then show ?thesis using None by simp
next
  case (Some t)
  obtain p eng v where t: "pick voice = Some (p, eng, v)" using Some by (cases t) simp
  obtain evs err where e: "engine_stream eng utt v cli (shd net) = (evs, err)"
    by (cases "engine_stream eng utt v cli (shd net)")
  let ?rel = "fst (relay cli True False evs)"
  let ?stop = "if err = None \<and> \<not> list_all is_Chunk evs then [AudioStop] else []"
  from swe_routed [OF t e] assms have
    out: "out = ?rel @ ?stop" and r: "r = (case err of Some x \<Rightarrow> Inl x | None \<Rightarrow> Inr ())"
    by simp_all
  have cs: "length (filter is_AudioStart ?rel) = (if list_all is_Chunk evs then 0 else 1)"
    by (rule relay_count_start)
  have ns: "filter (\<lambda>e. e = AudioStop) ?rel = []" by (rule relay_no_stop)
  have 1: "length (filter is_AudioStart out) = (if list_all is_Chunk evs then 0 else 1)"
    unfolding out using cs by simp
  have 2: "length (filter (\<lambda>e. e = AudioStop) out)
             = (if err = None \<and> \<not> list_all is_Chunk evs then 1 else 0)"
    unfolding out using ns by simp
  have 3: "r = Inr () \<longrightarrow>
         length (filter (\<lambda>e. e = AudioStop) out) = length (filter is_AudioStart out)"
    unfolding 1 2 r by (simp split: option.splits)
  have nsm: "AudioStop \<notin> set ?rel"
    using ns by (auto simp: filter_empty_conv)
  have hs: "\<exists>e \<in> set ?rel. is_AudioStart e" if "\<not> list_all is_Chunk evs"
  proof -
    have "filter is_AudioStart ?rel \<noteq> []" using cs that by auto
    then show ?thesis by (simp add: filter_empty_conv)
  qed
  have 4: "AudioStop \<in> set out \<longrightarrow>
         (\<exists>pre. out = pre @ [AudioStop] \<and> AudioStop \<notin> set pre
                \<and> (\<exists>e \<in> set pre. is_AudioStart e))"
  proof
    assume "AudioStop \<in> set out"
    with nsm have c: "err = None \<and> \<not> list_all is_Chunk evs"
      unfolding out by (auto split: if_splits)
    then have "out = ?rel @ [AudioStop]" unfolding out by simp
    with nsm hs c show "\<exists>pre. out = pre @ [AudioStop] \<and> AudioStop \<notin> set pre
                \<and> (\<exists>e \<in> set pre. is_AudioStart e)" by blast
  qed
  have 5: "filter is_AudioStart out = []" if "list_all is_Chunk evs"
    using 1 that by simp
  have 6: "take (Suc (length pre)) out
             = map (client_event cli) pre @ [AudioStart (rate f) (width f) (channels f)]"
    if "evs = pre @ Format f # post" "list_all is_Chunk pre" for pre f post
    unfolding out using that by (simp add: relay_prefix)
  show ?thesis
    using 1 2 3 4 5 6 t e by auto
qed

lemma chunk_loop_is_streaming:
  "is_streaming (fst (snd (chunk_loop ys final req h net))) = is_streaming h"
proof (induction ys arbitrary: req h net)
  case Nil
  then show ?case by simp
next
  case (Cons y ys)
  obtain sentence s where y: "y = (sentence, s)" by (cases y)
  let ?cli = "h_cli_args h"
  let ?req = "req\<lparr>req_text := sentence\<rparr>"
  let ?h2 = "h\<lparr>sbd := s, h_synthesize := Some ?req\<rparr>"
  show ?case
  proof (cases "strip sentence = []")
    case True
    then show ?thesis by (simp add: y)
  next
    case False
    obtain out r net' where
      s: "synthesize_with_engine ?cli sentence (stream_voice ?cli ?req) True True net
            = (out, r, net')"
      by (metis prod_cases3)
    show ?thesis
    proof (cases r)
      case (Inl e)
      then show ?thesis using False s by (simp add: y Let_def)
    next
      case (Inr u)
      have "is_streaming (fst (snd (chunk_loop ys final ?req ?h2 net'))) = is_streaming ?h2"
        by (rule Cons.IH)
      then show ?thesis
        using False s Inr by (simp add: y case_prod_beta Let_def)
    qed
  qed
qed

lemma handle_chunk_is_streaming:
  "is_streaming (fst (snd (handle_event seg (SynthesizeChunk tx) h net))) = is_streaming h"
proof -
  have b: "is_streaming (fst (snd (handle_stream seg (SynthesizeChunk tx) h net)))
             = is_streaming h"
  proof (cases "getattr (cli_streaming (h_cli_args h)) True")
    case False
    then show ?thesis by (simp add: handle_stream_def)
  next
    case enabled: True
    show ?thesis
    proof (cases "h_synthesize h")
      case None
      then show ?thesis using enabled by (simp add: handle_stream_def)
    next
      case (Some req)
      obtain ys final where a: "add_chunk seg (sbd h) tx = (ys, final)"
        by (cases "add_chunk seg (sbd h) tx")
      show ?thesis
        using enabled Some a chunk_loop_is_streaming [of ys final req h net]
        by (simp add: handle_stream_def)
    qed
  qed
  obtain out h' r net' where
    c: "handle_stream seg (SynthesizeChunk tx) h net = (out, h', r, net')"
    by (metis prod_cases4)
  show ?thesis
    using b c by (cases r) (simp_all add: handle_event_def handle_body_def)
qed

text \<open>
  Claim C10, as the code has it. A stream start sets \<open>is_streaming\<close> unless streaming
  is disabled at the command line; then it is ignored and the handler is unchanged.
  Stream chunks keep the flag. While the flag is set, a one-shot \<open>Synthesize\<close> event is
  ignored: nothing is written, the handler and the network are unchanged, and the
  result is \<open>True\<close>.
\<close>

theorem C10_oneshot_ignored_while_streaming:
  "(getattr (cli_streaming (h_cli_args h)) True \<longrightarrow>
      handle_event seg (SynthesizeStart v) h net
        = ([], h\<lparr>is_streaming := Some True, sbd := sbd_new seg,
                  h_synthesize := Some \<lparr>req_text = [], req_voice = v\<rparr>\<rparr>,
           Inr True, net))
   \<and> (\<not> getattr (cli_streaming (h_cli_args h)) True \<longrightarrow>
      handle_event seg (SynthesizeStart v) h net = ([], h, Inr True, net))
   \<and> is_streaming (fst (snd (handle_event seg (SynthesizeChunk tx) h net))) = is_streaming h
   \<and> (is_streaming h = Some True \<longrightarrow>
      handle_event seg (Synthesize ty rv) h net = ([], h, Inr True, net))"
proof -
  have 1: "getattr (cli_streaming (h_cli_args h)) True \<longrightarrow>
      handle_event seg (SynthesizeStart v) h net
        = ([], h\<lparr>is_streaming := Some True, sbd := sbd_new seg,
                  h_synthesize := Some \<lparr>req_text = [], req_voice = v\<rparr>\<rparr>,
           Inr True, net)"
    by (simp add: handle_event_def handle_body_def handle_stream_def)
  have 2: "\<not> getattr (cli_streaming (h_cli_args h)) True \<longrightarrow>
      handle_event seg (SynthesizeStart v) h net = ([], h, Inr True, net)"
    by (simp add: handle_event_def handle_body_def handle_stream_def)
  have s: "handle_stream seg (Synthesize ty rv) h net = ([], h, Inr True, net)"
    by (simp add: handle_stream_def Let_def)
  have 4: "is_streaming h = Some True \<longrightarrow>
      handle_event seg (Synthesize ty rv) h net = ([], h, Inr True, net)"
    using s by (simp add: handle_event_def handle_body_def)
  show ?thesis using 1 2 handle_chunk_is_streaming [of seg tx h net] 4 by blast
qed

section \<open>Routing and the adapters\<close>

lemma sublist_trans: "sublist xs ys \<Longrightarrow> sublist ys zs \<Longrightarrow> sublist xs zs"
  by (rule sublist_order.order_trans)

lemma strip_sublist: "sublist (strip s) s"
proof -
  have "prefix (rev (dropWhile isspace (rev (dropWhile isspace s)))) (dropWhile isspace s)"
    by (metis prefix_def rev_append rev_rev_ident takeWhile_dropWhile_id)
  then have "sublist (strip s) (dropWhile isspace s)"
    unfolding strip_def by (rule prefix_imp_sublist)
  moreover have "sublist (dropWhile isspace s) s" by simp
  ultimately show ?thesis by (rule sublist_trans)
qed



lemma lower_char_idem: "lower_char (lower_char c) = lower_char c"
  by (auto simp: lower_char_def Let_def)

lemma lower_strip_lower: "lower (strip (lower s)) = strip (lower s)"
proof -
  have "set (strip (lower s)) \<subseteq> set (lower s)"
    by (rule set_mono_sublist [OF strip_sublist])
  then have "\<forall>c \<in> set (strip (lower s)). lower_char c = c"
    by (auto simp: lower_def lower_char_idem)
  then show ?thesis
    unfolding lower_def [of "strip (lower s)"] by (simp add: map_idI)
qed

lemma split1_snd_Some:
  "sublist sep s \<Longrightarrow> \<exists>v. split1_snd sep s = Some v"
  by (induction s) (auto simp: sublist_Cons_right)

lemma parse_voice_lowered: "\<not> isl (parse_voice (lower s))"
proof (cases "sublist ''-openai-'' (lower (strip (lower s)))")
  case True
  then have "sublist ''-openai-'' (strip (lower s))" by (simp add: lower_strip_lower)
  from split1_snd_Some [OF this] obtain v where
    "split1_snd ''-openai-'' (strip (lower s)) = Some v" by blast
  then show ?thesis using True by (simp add: parse_voice_def Let_def)
next
  case False
  then show ?thesis by (simp add: parse_voice_def Let_def)
qed

lemma pick_lowered: "pick voice = Some (p, eng, v) \<Longrightarrow> \<exists>s. v = lower s"
  by (auto simp: pick_def Let_def split: if_splits)

lemma parse_voice_picked: "pick voice = Some (p, eng, v) \<Longrightarrow> \<not> isl (parse_voice v)"
  using pick_lowered parse_voice_lowered by blast

lemma openai_stream_events:
  "client_error up = None \<Longrightarrow> \<not> isl (parse_voice voice) \<Longrightarrow>
   openai_stream text voice cli up = (openai_events (fragments up), stream_error up)"
  by (cases "parse_voice voice") (simp_all add: openai_stream_def)

lemma openai_stream_fails:
  "client_error up \<noteq> None \<or> isl (parse_voice voice) \<Longrightarrow>
   fst (openai_stream text voice cli up) = []"
  by (cases "parse_voice voice"; cases "client_error up") (simp_all add: openai_stream_def)

lemma format_first_surfaced: "surfaced b evs \<Longrightarrow> format_first evs"
  by (cases "length b < 44") (auto simp: surfaced_def list_all_iff)

lemma count_format_surfaced:
  "surfaced b evs \<Longrightarrow>
   length (filter is_Format evs) = (if 44 \<le> length b then 1 else 0)"
  by (cases "length b < 44") (auto simp: surfaced_def filter_Format_chunks list_all_iff)

lemma format_first_count: "format_first evs \<Longrightarrow> length (filter is_Format evs) \<le> 1"
  by (cases evs) (simp_all add: filter_Format_chunks)

lemma format_first_google: "format_first (fst (google_stream text voice cli up))"
  by (cases "client_error up") (simp_all add: google_stream_def list_all_iff)

lemma format_first_openai: "format_first (fst (openai_stream text voice cli up))"
proof (cases "client_error up = None \<and> \<not> isl (parse_voice voice)")
  case True
  then show ?thesis
    using format_first_surfaced [OF openai_events_surfaced [of "fragments up"]]
    by (simp add: openai_stream_events)
next
  case False
  then have "fst (openai_stream text voice cli up) = []"
    using openai_stream_fails [of up voice _ cli] by blast
  then show ?thesis by simp
qed

text \<open>
  What the adapters yield, for every text, voice and upstream: a sequence that is empty
  or starts with its only format event and continues with chunks. The Google adapter
  yields a format event once its client is built; the OpenAI adapter yields one exactly
  when the response carries 44 bytes or more in all.
\<close>

lemma adapter_format_events:
  "format_first (fst (engine_stream eng utt voice cli up))
   \<and> length (filter is_Format (fst (engine_stream eng utt voice cli up))) \<le> 1
   \<and> (client_error up = None \<longrightarrow>
        length (filter is_Format (fst (google_stream utt voice cli up))) = 1)
   \<and> (client_error up = None \<and> \<not> isl (parse_voice voice) \<longrightarrow>
        length (filter is_Format (fst (openai_stream utt voice cli up)))
          = (if 44 \<le> length (concat (fragments up)) then 1 else 0))"
proof -
  have 1: "format_first (fst (engine_stream eng utt voice cli up))"
    by (cases eng) (simp_all add: format_first_google format_first_openai)
  have 3: "client_error up = None \<longrightarrow>
        length (filter is_Format (fst (google_stream utt voice cli up))) = 1"
    by (simp add: google_stream_def filter_Format_chunks list_all_iff)
  have 4: "client_error up = None \<and> \<not> isl (parse_voice voice) \<longrightarrow>
        length (filter is_Format (fst (openai_stream utt voice cli up)))
          = (if 44 \<le> length (concat (fragments up)) then 1 else 0)"
    using count_format_surfaced [OF openai_events_surfaced [of "fragments up"]]
    by (simp add: openai_stream_events)
  show ?thesis using 1 format_first_count [OF 1] 3 4 by blast
qed

text \<open>
  Every response that ends with fewer than 44 bytes in all goes the same way: the
  OpenAI adapter yields no event and ends without an exception, the relay writes
  nothing and the handler returns \<open>True\<close>.
\<close>

lemma truncated_response_silent:
  assumes "client_error up = None" and "stream_error up = None"
    and "length (concat (fragments up)) < 44"
  shows "(\<not> isl (parse_voice voice) \<longrightarrow> openai_stream utt voice cli up = ([], None))
    \<and> (\<forall>p v. pick vn = Some (p, OpenAITTSEngine, v) \<and> shd net = up \<longrightarrow>
          synthesize_with_engine cli utt vn ss st net = ([], Inr (), stl net))
    \<and> (\<forall>p v. is_streaming h \<noteq> Some True
          \<and> join_space (splitlines (strip tx)) \<noteq> []
          \<and> pick (Some (oneshot_voice (h_cli_args h) rv)) = Some (p, OpenAITTSEngine, v)
          \<and> shd net = up \<longrightarrow>
          handle_event seg (Synthesize tx rv) h net = ([], h, Inr True, stl net))"
proof -
  have ev: "openai_events (fragments up) = []"
    using surfaced_short [OF openai_events_surfaced assms(3)] .
  have 1: "openai_stream utt' voice' cli' up = ([], None)"
    if "\<not> isl (parse_voice voice')" for utt' voice' cli'
    using that assms(1,2) ev by (simp add: openai_stream_events)
  have 2: "synthesize_with_engine cli' utt' vn' ss' st' net = ([], Inr (), stl net)"
    if "pick vn' = Some (p, OpenAITTSEngine, v)" "shd net = up"
    for cli' utt' vn' ss' st' p v
    using that 1 [OF parse_voice_picked [OF that(1)]]
    by (simp add: synthesize_with_engine_def)
  have 3: "handle_event seg (Synthesize tx rv) h net = ([], h, Inr True, stl net)"
    if "is_streaming h \<noteq> Some True" "join_space (splitlines (strip tx)) \<noteq> []"
      "pick (Some (oneshot_voice (h_cli_args h) rv)) = Some (p, OpenAITTSEngine, v)"
      "shd net = up" for p v
    using that(1,2) 2 [OF that(3,4)]
    by (simp add: handle_event_def handle_body_def handle_oneshot_def Let_def)
  show ?thesis using 1 2 3 by blast
qed

section \<open>Concrete runs\<close>

lemma pick_openai_voice:
  "pick (Some openai_voice) = Some (''openai'', OpenAITTSEngine, ''en-us-openai-alloy'')"
  by code_simp

lemma pick_default_voice:
  "pick (Some default_voice) = Some (''google'', GoogleTTSEngine, ''en-us-chirp3-hd-charon'')"
  by code_simp


lemma parse_voice_alloy: "parse_voice ''en-us-openai-alloy'' = Inr ''alloy''"
  by code_simp

lemma collapse_hello: "join_space (splitlines (strip ''Hello.'')) = ''Hello.''"
  by code_simp

lemma oneshot_voice_given: "n \<noteq> [] \<Longrightarrow> oneshot_voice cli (Some (SynthesizeVoice (Some n))) = n"
  by (simp add: oneshot_voice_def)

lemma openai_voice_nonempty: "openai_voice \<noteq> []"
  by (simp add: openai_voice_def)

lemma delivers_sel [simp]:
  "client_error (delivers fs) = None" "fragments (delivers fs) = fs"
  "stream_error (delivers fs) = None"
  by (simp_all add: delivers_def)

lemma h0_sel [simp]:
  "h_cli_args h0 = no_args" "is_streaming h0 = None" "h_synthesize h0 = None"
  by (simp_all add: h0_def init_handler_def)

lemma riff_events: "openai_events [[0x52, 0x49, 0x46, 0x46]] = []"
  by (simp add: openai_events_def try_parse_wav_header_def)

lemma stereo_events:
  "openai_events [wav_header_48k_stereo @ [1, 2, 3, 4], [5, 6]]
     = [Format \<lparr>rate = 48000, width = 2, channels = 2\<rparr>, Chunk [1, 2, 3, 4], Chunk [5, 6]]"
  by (simp add: openai_events_def try_parse_wav_header_def wav_header_48k_stereo_def
      slice_def RIFF_def WAVE_def override_def)

lemma swe_stereo:
  "synthesize_with_engine no_args ''Hello.'' (Some openai_voice) True True
     (sconst (delivers [wav_header_48k_stereo @ [1, 2, 3, 4], [5, 6]]))
   = ([AudioStart 48000 2 2, AudioChunk [1, 2, 3, 4] 22050 2 1, AudioChunk [5, 6] 22050 2 1,
       AudioStop], Inr (), sconst (delivers [wav_header_48k_stereo @ [1, 2, 3, 4], [5, 6]]))"
  by (simp add: synthesize_with_engine_def pick_openai_voice openai_stream_def
      parse_voice_alloy stereo_events no_args_def getattr_def)

lemma handle_stereo:
  "handle_event line_segmenter hello_request h0
     (sconst (delivers [wav_header_48k_stereo @ [1, 2, 3, 4], [5, 6]]))
   = ([AudioStart 48000 2 2, AudioChunk [1, 2, 3, 4] 22050 2 1, AudioChunk [5, 6] 22050 2 1,
       AudioStop], h0, Inr True, sconst (delivers [wav_header_48k_stereo @ [1, 2, 3, 4], [5, 6]]))"
  by (simp add: hello_request_def handle_event_def handle_body_def handle_oneshot_def
      collapse_hello oneshot_voice_given openai_voice_nonempty swe_stereo)


section \<open>The handler\<close>


text \<open>
  A blank sentence ends the handling of a stream chunk: the sentences that the detector
  would yield after it are not synthesized.
\<close>

lemma chunk_blank_drops_rest:
  assumes "getattr (cli_streaming (h_cli_args h)) True" and "h_synthesize h = Some req"
    and "add_chunk seg (sbd h) tx = ((sentence, s) # rest, final)"
    and "strip sentence = []"
  shows "handle_event seg (SynthesizeChunk tx) h net = ([], h\<lparr>sbd := s\<rparr>, Inr True, net)"
  using assms by (simp add: handle_event_def handle_body_def handle_stream_def)


lemma start_opens:
  "handle_event line_segmenter (SynthesizeStart None) h0 net = ([], h_open, Inr True, net)"
  by (simp add: handle_event_def handle_body_def handle_stream_def h0_def init_handler_def
      h_open_def no_args_def getattr_def line_segmenter_def)

lemma yields_blank_then_two:
  "add_chunk line_segmenter [] blank_then_two
     = ([('' '', ''Two.'' @ [CHR 0x0A]), (''Two.'', [])], [])"
  by (simp add: line_segmenter_def blank_then_two_def)

lemma yields_two:
  "add_chunk line_segmenter [] (''Two.'' @ [CHR 0x0A]) = ([(''Two.'', [])], [])"
  by (simp add: line_segmenter_def)

lemma strip_blank: "strip '' '' = []"
  by code_simp

lemma strip_two: "strip ''Two.'' \<noteq> []"
  by code_simp

lemma swe_two:
  "synthesize_with_engine no_args ''Two.'' (Some default_voice) True True
     (sconst (delivers [[1, 2]]))
   = ([AudioStart 22050 2 1, AudioChunk [1, 2] 22050 2 1, AudioStop], Inr (),
      sconst (delivers [[1, 2]]))"
  by (simp add: synthesize_with_engine_def pick_default_voice google_stream_def
      no_args_def getattr_def)

text \<open>
  Claim C8 at a concrete chunk. The detector yields a blank sentence and then
  \<open>Two.\<close>; the handler returns at the blank sentence and writes nothing, so
  \<open>Two.\<close> is not synthesized, although the same sentence alone in a chunk is.
\<close>

theorem C8_blank_sentence_drops_rest:
  "handle_event line_segmenter (SynthesizeChunk blank_then_two) h_open
     (sconst (delivers [[1, 2]]))
   = ([], h_open\<lparr>sbd := ''Two.'' @ [CHR 0x0A]\<rparr>, Inr True, sconst (delivers [[1, 2]]))
   \<and> fst (handle_event line_segmenter (SynthesizeChunk (''Two.'' @ [CHR 0x0A])) h_open
        (sconst (delivers [[1, 2]])))
     = [AudioStart 22050 2 1, AudioChunk [1, 2] 22050 2 1, AudioStop]"
proof -
  have a: "getattr (cli_streaming (h_cli_args h_open)) True"
    "h_synthesize h_open = Some \<lparr>req_text = [], req_voice = None\<rparr>"
    "sbd h_open = []" "h_cli_args h_open = no_args" "getattr (cli_streaming no_args) True"
    by (simp_all add: h_open_def no_args_def getattr_def)
  have 1: "handle_event line_segmenter (SynthesizeChunk blank_then_two) h_open
     (sconst (delivers [[1, 2]]))
   = ([], h_open\<lparr>sbd := ''Two.'' @ [CHR 0x0A]\<rparr>, Inr True, sconst (delivers [[1, 2]]))"
    using chunk_blank_drops_rest [OF a(1,2), of line_segmenter blank_then_two "'' ''"]
      yields_blank_then_two strip_blank
    by (simp add: a)
  have sv: "stream_voice no_args \<lparr>req_text = ''Two.'', req_voice = None\<rparr> = Some default_voice"
    by (simp add: stream_voice_def no_args_def getattr_def)
  have 2: "fst (handle_event line_segmenter (SynthesizeChunk (''Two.'' @ [CHR 0x0A])) h_open
        (sconst (delivers [[1, 2]])))
     = [AudioStart 22050 2 1, AudioChunk [1, 2] 22050 2 1, AudioStop]"
    using yields_two strip_two
    by (simp add: handle_event_def handle_body_def handle_stream_def a sv swe_two)
  show ?thesis using 1 2 by simp
qed
section \<open>Concrete instances\<close>

text \<open>
  Claim C1 (each adapter stream contains exactly one format event) at a concrete
  response: the upstream ends after the four bytes \<open>RIFF\<close>, and the OpenAI adapter
  yields no event at all, so no format event.
\<close>

theorem C1_truncated_response_no_format:
  "openai_stream ''Hello.'' ''en-us-openai-alloy'' no_args
     (delivers [[0x52, 0x49, 0x46, 0x46]]) = ([], None)
   \<and> length (filter is_Format
        (fst (openai_stream ''Hello.'' ''en-us-openai-alloy'' no_args
           (delivers [[0x52, 0x49, 0x46, 0x46]])))) = 0"
  by (simp add: openai_stream_def parse_voice_alloy riff_events)

text \<open>
  Claim C2 on a concrete utterance: a 48000 Hz stereo header followed by six bytes of
  payload in two fragments.
\<close>

theorem C2_start_stop_pairing_witness:
  "synthesize_with_engine no_args ''Hello.'' (Some openai_voice) True True
     (sconst (delivers [wav_header_48k_stereo @ [1, 2, 3, 4], [5, 6]]))
   = ([AudioStart 48000 2 2, AudioChunk [1, 2, 3, 4] 22050 2 1, AudioChunk [5, 6] 22050 2 1,
       AudioStop], Inr (), sconst (delivers [wav_header_48k_stereo @ [1, 2, 3, 4], [5, 6]]))
   \<and> length (filter is_AudioStart
        [AudioStart 48000 2 2, AudioChunk [1, 2, 3, 4] 22050 2 1,
         AudioChunk [5, 6] 22050 2 1, AudioStop]) \<le> 1
   \<and> length (filter (\<lambda>e. e = AudioStop)
        [AudioStart 48000 2 2, AudioChunk [1, 2, 3, 4] 22050 2 1,
         AudioChunk [5, 6] 22050 2 1, AudioStop])
      = length (filter is_AudioStart
        [AudioStart 48000 2 2, AudioChunk [1, 2, 3, 4] 22050 2 1,
         AudioChunk [5, 6] 22050 2 1, AudioStop])
   \<and> take (Suc 0) [AudioStart 48000 2 2, AudioChunk [1, 2, 3, 4] 22050 2 1,
         AudioChunk [5, 6] 22050 2 1, AudioStop] = [AudioStart 48000 2 2]"
proof -
  let ?net = "sconst (delivers [wav_header_48k_stereo @ [1, 2, 3, 4], [5, 6]])"
  let ?f = "\<lparr>rate = 48000, width = 2, channels = 2\<rparr>"
  have e: "engine_stream OpenAITTSEngine ''Hello.'' ''en-us-openai-alloy'' no_args (shd ?net)
             = ([] @ Format ?f # [Chunk [1, 2, 3, 4], Chunk [5, 6]], None)"
    by (simp add: openai_stream_def parse_voice_alloy stereo_events)
  have le: "list_all is_Chunk ([] :: AudioEvent list)" by simp
  from C2_start_stop_pairing [OF swe_stereo] pick_openai_voice e le
  have "length (filter is_AudioStart
        [AudioStart 48000 2 2, AudioChunk [1, 2, 3, 4] 22050 2 1,
         AudioChunk [5, 6] 22050 2 1, AudioStop]) \<le> 1
   \<and> length (filter (\<lambda>e. e = AudioStop)
        [AudioStart 48000 2 2, AudioChunk [1, 2, 3, 4] 22050 2 1,
         AudioChunk [5, 6] 22050 2 1, AudioStop])
      = length (filter is_AudioStart
        [AudioStart 48000 2 2, AudioChunk [1, 2, 3, 4] 22050 2 1,
         AudioChunk [5, 6] 22050 2 1, AudioStop])
   \<and> take (Suc (length ([] :: AudioEvent list)))
         [AudioStart 48000 2 2, AudioChunk [1, 2, 3, 4] 22050 2 1,
         AudioChunk [5, 6] 22050 2 1, AudioStop]
       = map (client_event no_args) [] @ [AudioStart (rate ?f) (width ?f) (channels ?f)]"
    by blast
  then show ?thesis using swe_stereo by simp
qed




lemma five_byte_events: "openai_events [[1, 2, 3], [4, 5]] = []"
  by (simp add: openai_events_def try_parse_wav_header_def)

text \<open>
  Claim C4 (on a truncated response the adapter signals that no usable audio was
  produced) at a concrete response of five bytes in two fragments: the adapter yields
  nothing and ends without an exception, and the handler writes nothing and returns
  \<open>True\<close>, whereas a one-shot request with an empty text is answered with
  \<open>AudioStop\<close>.
\<close>

theorem C4_truncated_response_silent:
  "openai_stream ''Hello.'' ''en-us-openai-alloy'' no_args (delivers [[1, 2, 3], [4, 5]])
     = ([], None)
   \<and> handle_event line_segmenter hello_request h0 (sconst (delivers [[1, 2, 3], [4, 5]]))
     = ([], h0, Inr True, sconst (delivers [[1, 2, 3], [4, 5]]))
   \<and> handle_event line_segmenter (Synthesize [] None) h0 (sconst (delivers [[1, 2, 3], [4, 5]]))
     = ([AudioStop], h0, Inr True, sconst (delivers [[1, 2, 3], [4, 5]]))"
proof -
  have c: "join_space (splitlines (strip [])) = []"
    by (simp add: strip_def splitlines_def)
  show ?thesis
    by (simp add: openai_stream_def parse_voice_alloy five_byte_events hello_request_def
        handle_event_def handle_body_def handle_oneshot_def collapse_hello c
        oneshot_voice_given openai_voice_nonempty synthesize_with_engine_def pick_openai_voice)
qed

text \<open>
  Claim C9 on a concrete utterance: the start-of-audio event announces 48000 Hz
  stereo, the audio-data events carry 22050 Hz, width 2, one channel.
\<close>

theorem C9_chunk_tags_witness:
  "fst (handle_event line_segmenter hello_request h0
          (sconst (delivers [wav_header_48k_stereo @ [1, 2, 3, 4], [5, 6]])))
     = [AudioStart 48000 2 2, AudioChunk [1, 2, 3, 4] 22050 2 1,
        AudioChunk [5, 6] 22050 2 1, AudioStop]
   \<and> AudioChunk [1, 2, 3, 4] 22050 2 1
       \<in> set (fst (handle_event line_segmenter hello_request h0
            (sconst (delivers [wav_header_48k_stereo @ [1, 2, 3, 4], [5, 6]]))))
   \<and> (22050 :: int) = getattr (cli_sample_rate (h_cli_args h0)) 22050
   \<and> (2 :: int) = 2 \<and> (1 :: int) = 1"
proof -
  let ?net = "sconst (delivers [wav_header_48k_stereo @ [1, 2, 3, 4], [5, 6]])"
  have m: "AudioChunk [1, 2, 3, 4] 22050 2 1
             \<in> set (fst (handle_event line_segmenter hello_request h0 ?net))"
    by (simp add: handle_stereo)
  have "(22050 :: int) = getattr (cli_sample_rate (h_cli_args h0)) 22050
          \<and> (2 :: int) = 2 \<and> (1 :: int) = 1"
    by (rule C9_chunk_tags [THEN bspec, OF m, rule_format, OF refl])
  then show ?thesis using m by (simp add: handle_stereo)
qed

text \<open>
  Claim C10 on a concrete run: a stream start opens the stream, a chunk keeps it open,
  and the one-shot request that follows is ignored.
\<close>

theorem C10_oneshot_ignored_while_streaming_witness:
  "handle_event line_segmenter (SynthesizeStart None) h0 (sconst (delivers [[1, 2]]))
     = ([], h_open, Inr True, sconst (delivers [[1, 2]]))
   \<and> is_streaming h_open = Some True
   \<and> is_streaming (fst (snd (handle_event line_segmenter
         (SynthesizeChunk (''Two.'' @ [CHR 0x0A])) h_open (sconst (delivers [[1, 2]])))))
       = Some True
   \<and> handle_event line_segmenter hello_request h_open (sconst (delivers [[1, 2]]))
     = ([], h_open, Inr True, sconst (delivers [[1, 2]]))"
proof -
  let ?net = "sconst (delivers [[1, 2]])"
  have e: "getattr (cli_streaming (h_cli_args h0)) True"
    by (simp add: no_args_def getattr_def)
  have o: "is_streaming h_open = Some True" by (simp add: h_open_def)
  have u: "h0\<lparr>is_streaming := Some True, sbd := sbd_new line_segmenter,
                h_synthesize := Some \<lparr>req_text = [], req_voice = None\<rparr>\<rparr> = h_open"
    by (simp add: h0_def init_handler_def h_open_def line_segmenter_def)
  have 1: "handle_event line_segmenter (SynthesizeStart None) h0 ?net
             = ([], h_open, Inr True, ?net)"
    using C10_oneshot_ignored_while_streaming [where h = h0 and seg = line_segmenter and v = None and net = ?net
        and tx = "[]" and ty = "[]" and rv = None] e u
    by simp
  have 3: "is_streaming (fst (snd (handle_event line_segmenter
         (SynthesizeChunk (''Two.'' @ [CHR 0x0A])) h_open ?net))) = Some True"
    using C10_oneshot_ignored_while_streaming [where h = h_open and seg = line_segmenter and v = None and net = ?net
        and tx = "''Two.'' @ [CHR 0x0A]" and ty = "[]" and rv = None] o
    by simp
  have 4: "handle_event line_segmenter
             (Synthesize ''Hello.'' (Some (SynthesizeVoice (Some openai_voice)))) h_open ?net
             = ([], h_open, Inr True, ?net)"
    using C10_oneshot_ignored_while_streaming [where h = h_open and seg = line_segmenter and v = None and net = ?net
        and tx = "[]" and ty = "''Hello.''"
        and rv = "Some (SynthesizeVoice (Some openai_voice))"] o
    by simp
  show ?thesis using 1 o 3 4 by (simp add: hello_request_def)
qed

lemma swe_default_two:
  "synthesize_with_engine streaming_off ''Hello.'' (Some default_voice) True True
     (sconst (delivers [[1, 2]]))
   = ([AudioStart 22050 2 1, AudioChunk [1, 2] 22050 2 1, AudioStop], Inr (),
      sconst (delivers [[1, 2]]))"
  by (simp add: synthesize_with_engine_def pick_default_voice google_stream_def
      streaming_off_def getattr_def)

text \<open>
  Claim C10 as stated fails with streaming disabled at the command line: the stream
  start is ignored, and the one-shot request after it is synthesized.
\<close>

theorem C10_counterexample:
  "handle_event line_segmenter (SynthesizeStart None)
     (init_handler line_segmenter streaming_off) (sconst (delivers [[1, 2]]))
   = ([], init_handler line_segmenter streaming_off, Inr True, sconst (delivers [[1, 2]]))
   \<and> handle_event line_segmenter (Synthesize ''Hello.'' None)
     (init_handler line_segmenter streaming_off) (sconst (delivers [[1, 2]]))
   = ([AudioStart 22050 2 1, AudioChunk [1, 2] 22050 2 1, AudioStop],
      init_handler line_segmenter streaming_off, Inr True, sconst (delivers [[1, 2]]))"
proof -
  have a: "h_cli_args (init_handler line_segmenter streaming_off) = streaming_off"
    "is_streaming (init_handler line_segmenter streaming_off) = None"
    "\<not> getattr (cli_streaming streaming_off) True"
    "oneshot_voice streaming_off None = default_voice"
    by (simp_all add: init_handler_def streaming_off_def getattr_def oneshot_voice_def)
  show ?thesis
    by (simp add: handle_event_def handle_body_def handle_stream_def handle_oneshot_def
        a collapse_hello swe_default_two)
qed


end
